theory Spec2Isabelle
  imports Complex_Main "HOL-Library.Word"
begin

section \<open>Python values and exceptions\<close>

text \<open>
  The functions of \<^verbatim>\<open>deeposlandia/datasets/tanzania.py\<close> are embedded as HOL functions.
  An exception is a value of type \<open>error\<close>; a function that may raise returns
  \<open>error + 'a\<close>, with \<open>Inl\<close> for the exception.

  Python floats are idealised as exact reals: rounding, infinities and NaN are not part
  of the model. The statements proved below about the coordinate transforms concern which
  branch of the type dispatch is taken and which exception is raised; they do not depend
  on the rounding of the arithmetic.
\<close>

datatype error = TypeError | ZeroDivisionError | IndexError | ValueError

datatype pyval =
    PyNone
  | PyBool bool
  | PyInt int
  | PyFloat real
  | PyStr string
  | PyList "pyval list"
  | PyTuple "pyval list"

text \<open>\<^verbatim>\<open>isinstance(v, list)\<close>, \<^verbatim>\<open>isinstance(v, float)\<close> and \<^verbatim>\<open>isinstance(v, int)\<close>;
  \<^verbatim>\<open>bool\<close> is a subclass of \<^verbatim>\<open>int\<close>.\<close>

fun isinstance_list :: "pyval \<Rightarrow> bool" where
  "isinstance_list (PyList _) = True"
| "isinstance_list _ = False"

fun isinstance_float :: "pyval \<Rightarrow> bool" where
  "isinstance_float (PyFloat _) = True"
| "isinstance_float _ = False"

fun isinstance_int :: "pyval \<Rightarrow> bool" where
  "isinstance_int (PyInt _) = True"
| "isinstance_int (PyBool _) = True"
| "isinstance_int _ = False"

text \<open>The numeric value of an operand of \<^verbatim>\<open>-\<close> or \<^verbatim>\<open>*\<close> whose other operand is a float:
  an int, a bool or a float is converted, anything else raises \<^verbatim>\<open>TypeError\<close>.\<close>

fun as_number :: "pyval \<Rightarrow> error + real" where
  "as_number (PyInt i) = Inr (real_of_int i)"
| "as_number (PyBool b) = Inr (if b then 1 else 0)"
| "as_number (PyFloat f) = Inr f"
| "as_number _ = Inl TypeError"

text \<open>\<^verbatim>\<open>int(f)\<close> on a float truncates towards zero.\<close>

definition py_int :: "real \<Rightarrow> int" where
  "py_int r = (if 0 \<le> r then \<lfloor>r\<rfloor> else \<lceil>r\<rceil>)"

text \<open>True division \<^verbatim>\<open>a / b\<close> of floats raises on a zero divisor.\<close>

definition py_truediv :: "real \<Rightarrow> real \<Rightarrow> error + real" where
  "py_truediv a b = (if b = 0 then Inl ZeroDivisionError else Inr (a / b))"

text \<open>A list comprehension whose element expression may raise: the elements are
  evaluated from left to right and the first exception ends the evaluation.\<close>

fun comprehension :: "('a \<Rightarrow> error + 'b) \<Rightarrow> 'a list \<Rightarrow> error + 'b list" where
  "comprehension f [] = Inr []"
| "comprehension f (x # xs) =
     (case f x of
        Inl e \<Rightarrow> Inl e
      | Inr y \<Rightarrow> (case comprehension f xs of Inl e \<Rightarrow> Inl e | Inr ys \<Rightarrow> Inr (y # ys)))"

section \<open>Coordinate transforms\<close>

text \<open>The element expression of \<^verbatim>\<open>get_pixel\<close>:
  \<^verbatim>\<open>int(size * (c - min_coord) / (max_coord - min_coord))\<close>.\<close>

definition pixel_of :: "real \<Rightarrow> real \<Rightarrow> int \<Rightarrow> pyval \<Rightarrow> error + int" where
  "pixel_of min_coord max_coord sz c =
     (case as_number c of
        Inl e \<Rightarrow> Inl e
      | Inr v \<Rightarrow>
          (case py_truediv (real_of_int sz * (v - min_coord)) (max_coord - min_coord) of
             Inl e \<Rightarrow> Inl e
           | Inr q \<Rightarrow> Inr (py_int q)))"

definition get_pixel :: "pyval \<Rightarrow> real \<Rightarrow> real \<Rightarrow> int \<Rightarrow> error + pyval" where
  "get_pixel coord min_coord max_coord sz =
     (if isinstance_list coord then
        (case coord of
           PyList cs \<Rightarrow>
             (case comprehension (pixel_of min_coord max_coord sz) cs of
                Inl e \<Rightarrow> Inl e
              | Inr ps \<Rightarrow> Inr (PyList (map PyInt ps)))
         | _ \<Rightarrow> Inl TypeError)
      else if isinstance_float coord then
        (case pixel_of min_coord max_coord sz coord of
           Inl e \<Rightarrow> Inl e
         | Inr p \<Rightarrow> Inr (PyInt p))
      else Inl TypeError)"

text \<open>The element expression of \<^verbatim>\<open>get_geocoord\<close>:
  \<^verbatim>\<open>min_coord + c * (max_coord - min_coord) / size\<close>.\<close>

definition geocoord_of :: "real \<Rightarrow> real \<Rightarrow> int \<Rightarrow> pyval \<Rightarrow> error + real" where
  "geocoord_of min_coord max_coord sz c =
     (case as_number c of
        Inl e \<Rightarrow> Inl e
      | Inr v \<Rightarrow>
          (case py_truediv (v * (max_coord - min_coord)) (real_of_int sz) of
             Inl e \<Rightarrow> Inl e
           | Inr q \<Rightarrow> Inr (min_coord + q)))"

definition get_geocoord :: "pyval \<Rightarrow> real \<Rightarrow> real \<Rightarrow> int \<Rightarrow> error + pyval" where
  "get_geocoord coord min_coord max_coord sz =
     (if isinstance_list coord then
        (case coord of
           PyList cs \<Rightarrow>
             (case comprehension (geocoord_of min_coord max_coord sz) cs of
                Inl e \<Rightarrow> Inl e
              | Inr gs \<Rightarrow> Inr (PyList (map PyFloat gs)))
         | _ \<Rightarrow> Inl TypeError)
      else if isinstance_int coord then
        (case geocoord_of min_coord max_coord sz coord of
           Inl e \<Rightarrow> Inl e
         | Inr g \<Rightarrow> Inr (PyFloat g))
      else Inl TypeError)"


section \<open>Strings and paths\<close>

text \<open>Strings are lists of characters. The library functions used by the file-naming code
  are written out: \<^verbatim>\<open>str(i)\<close> on an int, \<^verbatim>\<open>str.replace\<close>, \<^verbatim>\<open>str.lower\<close> (on ASCII
  letters), and \<^verbatim>\<open>os.path.basename\<close>, \<^verbatim>\<open>os.path.splitext\<close> and \<^verbatim>\<open>os.path.join\<close> with
  their POSIX meaning.\<close>

definition digit_char :: "nat \<Rightarrow> char" where
  "digit_char d = ''0123456789'' ! d"

fun str_nat :: "nat \<Rightarrow> string" where
  "str_nat n = (if n < 10 then [digit_char n] else str_nat (n div 10) @ [digit_char (n mod 10)])"

definition py_str :: "int \<Rightarrow> string" where
  "py_str i = (if i < 0 then CHR ''-'' # str_nat (nat (- i)) else str_nat (nat i))"

text \<open>\<^verbatim>\<open>s.replace(old, new)\<close>: every non-overlapping occurrence of \<open>old\<close>, found from
  left to right, is replaced. With an empty \<open>old\<close>, Python inserts \<open>new\<close> before every
  character and at the end.\<close>

function py_replace :: "string \<Rightarrow> string \<Rightarrow> string \<Rightarrow> string" where
  "py_replace old new [] = (if old = [] then new else [])"
| "py_replace old new (c # cs) =
     (if old = [] then new @ c # py_replace old new cs
      else if take (length old) (c # cs) = old
           then new @ py_replace old new (drop (length old) (c # cs))
           else c # py_replace old new cs)"
  by pat_completeness auto
termination
  by (relation "measure (\<lambda>(old, new, s). length s)") (auto simp: Suc_le_eq)

definition lower_char :: "char \<Rightarrow> char" where
  "lower_char c =
     (case map_of (zip ''ABCDEFGHIJKLMNOPQRSTUVWXYZ'' ''abcdefghijklmnopqrstuvwxyz'') c of
        Some d \<Rightarrow> d
      | None \<Rightarrow> c)"

definition py_lower :: "string \<Rightarrow> string" where
  "py_lower s = map lower_char s"

text \<open>\<^verbatim>\<open>s.rfind(c)\<close> for a single character: the last index of \<open>c\<close>, or \<open>-1\<close>.\<close>

definition py_rfind :: "char \<Rightarrow> string \<Rightarrow> int" where
  "py_rfind c s =
     (if c \<in> set s then int (length s) - 1 - int (length (takeWhile (\<lambda>d. d \<noteq> c) (rev s)))
      else - 1)"

definition basename :: "string \<Rightarrow> string" where
  "basename p = drop (nat (py_rfind (CHR ''/'') p + 1)) p"

text \<open>\<^verbatim>\<open>os.path.splitext\<close>: the extension starts at the last dot of the last path
  component, unless that component has only dots before it.\<close>

definition splitext :: "string \<Rightarrow> string \<times> string" where
  "splitext p =
     (let sepIndex = py_rfind (CHR ''/'') p;
          dotIndex = py_rfind (CHR ''.'') p
      in if dotIndex > sepIndex \<and>
            list_ex (\<lambda>c. c \<noteq> CHR ''.'')
              (take (nat (dotIndex - (sepIndex + 1))) (drop (nat (sepIndex + 1)) p))
         then (take (nat dotIndex) p, drop (nat dotIndex) p)
         else (p, []))"

definition join_step :: "string \<Rightarrow> string \<Rightarrow> string" where
  "join_step path b =
     (if b \<noteq> [] \<and> hd b = CHR ''/'' then b
      else if path = [] \<or> last path = CHR ''/'' then path @ b
      else path @ CHR ''/'' # b)"

definition path_join :: "string \<Rightarrow> string list \<Rightarrow> string" where
  "path_join a ps = foldl join_step a ps"

section \<open>The dataset and its label registry\<close>

record label =
  label_id :: int
  label_name :: string
  color :: "nat list"
  is_evaluate :: bool

record dataset =
  image_size :: nat
  labels :: "label list"

text \<open>Modelled from the spec: the \<^verbatim>\<open>Dataset\<close> base class (its constructor, \<^verbatim>\<open>add_label\<close>
  and \<^verbatim>\<open>get_nb_labels\<close>) is not part of the sources. The spec describes a label as
  \<open>{id, name, color, is_evaluated}\<close> and the registry as the ordered list of the labels
  added at construction; \<^verbatim>\<open>get_nb_labels\<close> is the number of labels in the registry.\<close>

definition Dataset_init :: "nat \<Rightarrow> dataset" where
  "Dataset_init img_size = \<lparr>image_size = img_size, labels = []\<rparr>"

definition add_label :: "int \<Rightarrow> string \<Rightarrow> nat list \<Rightarrow> bool \<Rightarrow> dataset \<Rightarrow> dataset" where
  "add_label lid lname col ev ds =
     ds\<lparr>labels := labels ds @
           [\<lparr>label_id = lid, label_name = lname, color = col, is_evaluate = ev\<rparr>]\<rparr>"

definition get_nb_labels :: "dataset \<Rightarrow> nat" where
  "get_nb_labels ds = length (labels ds)"

definition BACKGROUND_COLOR :: "nat list" where "BACKGROUND_COLOR = [0, 0, 0]"
definition COMPLETE_COLOR :: "nat list" where "COMPLETE_COLOR = [50, 200, 50]"
definition INCOMPLETE_COLOR :: "nat list" where "INCOMPLETE_COLOR = [200, 200, 50]"
definition FOUNDATION_COLOR :: "nat list" where "FOUNDATION_COLOR = [200, 50, 50]"

definition TanzaniaDataset :: "nat \<Rightarrow> dataset" where
  "TanzaniaDataset img_size =
     add_label 3 ''foundation'' FOUNDATION_COLOR True
       (add_label 2 ''incomplete'' INCOMPLETE_COLOR True
         (add_label 1 ''complete'' COMPLETE_COLOR True
           (add_label 0 ''background'' BACKGROUND_COLOR True
             (Dataset_init img_size))))"

section \<open>File names of the preprocessed tiles\<close>

text \<open>The dictionary \<^verbatim>\<open>{"image": ..., "labels": ...}\<close> returned by
  \<^verbatim>\<open>_generate_preprocessed_filenames\<close>; \<open>None\<close> is the default of \<^verbatim>\<open>suffix\<close>.\<close>

record filenames =
  image_path :: string
  labels_path :: string

text \<open>The name \<^verbatim>\<open>new_filename\<close> that \<^verbatim>\<open>_generate_preprocessed_filenames\<close> gives the
  tile inside the folder.\<close>

definition new_filename :: "dataset \<Rightarrow> string \<Rightarrow> int \<Rightarrow> int \<Rightarrow> string option \<Rightarrow> string" where
  "new_filename ds image_filename x y suffix =
     (let basename_decomp = splitext (basename image_filename);
          img_id_str0 = py_str (int (image_size ds)) @ ''_''
                        @ py_str (int (image_size ds)) @ ''_''
                        @ py_str x @ ''_'' @ py_str y;
          img_id_str = (case suffix of None \<Rightarrow> img_id_str0
                        | Some sfx \<Rightarrow> img_id_str0 @ ''_'' @ sfx)
      in fst basename_decomp @ ''_'' @ img_id_str @ ''.png'')"

definition generate_preprocessed_filenames ::
  "dataset \<Rightarrow> string \<Rightarrow> string \<Rightarrow> int \<Rightarrow> int \<Rightarrow> string option \<Rightarrow> filenames" where
  "generate_preprocessed_filenames ds image_filename output_dir x y suffix =
     (let out_image_name =
            path_join output_dir [''images'', new_filename ds image_filename x y suffix];
          out_label_name = py_replace ''images'' ''labels'' out_image_name
      in \<lparr>image_path = out_image_name, labels_path = out_label_name\<rparr>)"

section \<open>Rasterising the buildings of a tile\<close>

text \<open>The dictionary returned by \<^verbatim>\<open>get_image_features\<close>.\<close>

record raster_features =
  west :: real
  south :: real
  east :: real
  north :: real
  srid :: int
  width :: int
  height :: int

text \<open>A row of the buildings table: its \<^verbatim>\<open>condition\<close> and its \<^verbatim>\<open>geometry\<close>, a polygon
  given by the vertices \<open>(x, y)\<close> of its exterior ring.\<close>

record building =
  condition :: string
  geometry :: "(real \<times> real) list"

text \<open>A mask is a square array of \<^verbatim>\<open>uint8\<close>, stored by rows; a vertex array holds the
  rows \<open>[y, x]\<close> of \<^verbatim>\<open>extract_points_from_polygon\<close>.\<close>

type_synonym mask = "8 word list list"
type_synonym points = "(int \<times> int) list"

definition np_zeros :: "nat \<Rightarrow> nat \<Rightarrow> mask" where
  "np_zeros rows cols = replicate rows (replicate cols 0)"

text \<open>The items of a list of ints returned by \<open>get_pixel\<close>.\<close>

fun int_item :: "pyval \<Rightarrow> int" where
  "int_item (PyInt i) = i"
| "int_item _ = 0"

fun int_items :: "pyval \<Rightarrow> int list" where
  "int_items (PyList vs) = map int_item vs"
| "int_items _ = []"

text \<open>\<^verbatim>\<open>extract_points_from_polygon\<close>. The two-index updates \<^verbatim>\<open>points[:, 0] -= min_y\<close>
  and \<^verbatim>\<open>points[:, 1] -= min_x\<close> raise \<^verbatim>\<open>IndexError\<close> on the one-dimensional array
  that numpy builds from an empty vertex list. The \<^verbatim>\<open>int32\<close> range of the array is not
  modelled.\<close>

definition extract_points_from_polygon ::
  "(real \<times> real) list \<Rightarrow> raster_features \<Rightarrow> int \<Rightarrow> int \<Rightarrow> error + points" where
  "extract_points_from_polygon p features min_x min_y =
     (let raw_xs = map fst p; raw_ys = map snd p
      in case get_pixel (PyList (map PyFloat raw_xs))
                (west features) (east features) (width features) of
           Inl e \<Rightarrow> Inl e
         | Inr xs \<Rightarrow>
             (case get_pixel (PyList (map PyFloat raw_ys))
                     (north features) (south features) (height features) of
                Inl e \<Rightarrow> Inl e
              | Inr ys \<Rightarrow>
                  (let points = map (\<lambda>(x, y). (y, x)) (zip (int_items xs) (int_items ys))
                   in if points = [] then Inl IndexError
                      else Inr (map (\<lambda>(r, c). (r - min_y, c - min_x)) points))))"

text \<open>\<^verbatim>\<open>cv2.fillPoly(mask, [points], label_id)\<close> writes the colour, saturated to
  \<^verbatim>\<open>uint8\<close>, to the pixels that the polygon covers and leaves the others. Which pixels
  a polygon covers is decided by OpenCV: it is the parameter \<open>covers\<close>, applied to the
  vertex array, the row and the column.\<close>

definition saturate_uint8 :: "int \<Rightarrow> 8 word" where
  "saturate_uint8 i = (if i < 0 then 0 else if 255 < i then 255 else word_of_int i)"

definition fillPoly ::
  "(points \<Rightarrow> nat \<Rightarrow> nat \<Rightarrow> bool) \<Rightarrow> mask \<Rightarrow> points \<Rightarrow> int \<Rightarrow> mask" where
  "fillPoly covers m pts colour =
     map (\<lambda>(r, row). map (\<lambda>(c, v). if covers pts r c then saturate_uint8 colour else v)
                          (zip [0..<length row] row))
         (zip [0..<length m] m)"

text \<open>The lookup \<^verbatim>\<open>[label["id"] for label in self.labels if label["name"] == name][0]\<close>:
  the first matching id, \<^verbatim>\<open>IndexError\<close> when no label matches.\<close>

definition lookup_label_id :: "dataset \<Rightarrow> string \<Rightarrow> error + int" where
  "lookup_label_id ds name =
     (case [label_id l. l \<leftarrow> labels ds, label_name l = name] of
        [] \<Rightarrow> Inl IndexError
      | i # _ \<Rightarrow> Inr i)"

text \<open>The loop of \<^verbatim>\<open>load_mask\<close> over the rows of the table, threading the mask. The
  conditions are ASCII strings, on which \<open>py_lower\<close> is \<^verbatim>\<open>str.lower\<close>.\<close>

fun load_mask_rows ::
  "(points \<Rightarrow> nat \<Rightarrow> nat \<Rightarrow> bool) \<Rightarrow> dataset \<Rightarrow> raster_features \<Rightarrow> int \<Rightarrow> int \<Rightarrow>
   mask \<Rightarrow> building list \<Rightarrow> error + mask" where
  "load_mask_rows covers ds features min_x min_y m [] = Inr m"
| "load_mask_rows covers ds features min_x min_y m (row # rows) =
     (case extract_points_from_polygon (geometry row) features min_x min_y of
        Inl e \<Rightarrow> Inl e
      | Inr pts \<Rightarrow>
          (case lookup_label_id ds (py_lower (condition row)) of
             Inl e \<Rightarrow> Inl e
           | Inr lid \<Rightarrow>
               load_mask_rows covers ds features min_x min_y (fillPoly covers m pts lid) rows))"

definition load_mask ::
  "(points \<Rightarrow> nat \<Rightarrow> nat \<Rightarrow> bool) \<Rightarrow> dataset \<Rightarrow> building list \<Rightarrow> raster_features \<Rightarrow>
   int \<Rightarrow> int \<Rightarrow> error + mask" where
  "load_mask covers ds buildings features min_x min_y =
     (let m = np_zeros (image_size ds) (image_size ds)
      in if length buildings = 0 then Inr m
         else load_mask_rows covers ds features min_x min_y m buildings)"

section \<open>Tiles, records and the collaborators of the sampler\<close>

text \<open>An image is an array of pixels stored by rows, a pixel the list of its band values.
  \<^verbatim>\<open>Image.transpose\<close> with \<^verbatim>\<open>FLIP_LEFT_RIGHT\<close> reverses every row, with
  \<^verbatim>\<open>FLIP_TOP_BOTTOM\<close> it reverses the order of the rows.\<close>

type_synonym image = "nat list list list"

datatype flip = FLIP_LEFT_RIGHT | FLIP_TOP_BOTTOM

fun image_transpose :: "image \<Rightarrow> flip \<Rightarrow> image" where
  "image_transpose img FLIP_LEFT_RIGHT = map rev img"
| "image_transpose img FLIP_TOP_BOTTOM = rev img"

text \<open>A tile record is a dictionary with string keys, kept as the list of its items in
  insertion order; its values are strings, except the label dictionary of the tile.\<close>

datatype 'l entry = Str string | LabelDict 'l

type_synonym 'l tile_record = "(string \<times> 'l entry) list"

text \<open>The functions of the repository and of its libraries that the sampler calls and that
  are not part of the sources are parameters of the model: the pixels a polygon covers
  (OpenCV), and \<^verbatim>\<open>utils.build_labels\<close> and \<^verbatim>\<open>utils.build_image_from_config\<close>.\<close>

record 'l services =
  poly_cover :: "points \<Rightarrow> nat \<Rightarrow> nat \<Rightarrow> bool"
  build_labels :: "mask \<Rightarrow> nat list \<Rightarrow> string \<Rightarrow> 'l"
  build_image_from_config :: "mask \<Rightarrow> label list \<Rightarrow> image"

text \<open>An opened raster together with its label table: its pixel size, the result of
  \<^verbatim>\<open>get_image_features\<close>, the tile image cut at a pixel origin
  (\<^verbatim>\<open>Image.fromarray(image_data[x:x+s, y:y+s])\<close>) and the buildings clipped to the tile at
  that origin (\<^verbatim>\<open>extract_tile_items\<close>, computed by geopandas).\<close>

record raster =
  RasterXSize :: int
  RasterYSize :: int
  image_features :: raster_features
  tile_data :: "int \<Rightarrow> int \<Rightarrow> image"
  clipped_labels :: "int \<Rightarrow> int \<Rightarrow> building list"

text \<open>\<^verbatim>\<open>range(start, stop, step)\<close> as the list of its elements.\<close>

definition py_range :: "int \<Rightarrow> int \<Rightarrow> int \<Rightarrow> error + int list" where
  "py_range start stop step =
     (if step = 0 then Inl ValueError
      else if 0 < step
           then Inr (map (\<lambda>k. start + int k * step)
                      [0..<nat ((stop - start + step - 1) div step)])
           else Inr (map (\<lambda>k. start + int k * step)
                      [0..<nat ((start - stop - step - 1) div (- step))]))"

text \<open>\<^verbatim>\<open>np.random.randint(low, high)\<close> draws from \<open>[low, high)\<close> and raises \<^verbatim>\<open>ValueError\<close>
  on an empty interval. The generator is a source of raw integers; the draw reduces the
  raw integer into the interval.\<close>

definition randint :: "int \<Rightarrow> int \<Rightarrow> int \<Rightarrow> error + int" where
  "randint low high raw =
     (if high \<le> low then Inl ValueError else Inr (low + raw mod (high - low)))"

section \<open>Exhaustive tiling for inference\<close>

text \<open>\<^verbatim>\<open>_preprocess_tile\<close> asks GDAL to write the window \<^verbatim>\<open>srcWin\<close> of the raster to the
  image path, and returns the record of the tile. The request is returned with the
  record, as the pair of the destination and the window.\<close>

type_synonym translate_call = "string \<times> int list"

definition preprocess_tile ::
  "dataset \<Rightarrow> int \<Rightarrow> int \<Rightarrow> string \<Rightarrow> string \<Rightarrow> 'l tile_record \<times> translate_call" where
  "preprocess_tile ds x y image_filename output_dir =
     (let dirs = generate_preprocessed_filenames ds image_filename output_dir x y None
      in ([(''raw_filename'', Str image_filename),
           (''image_filename'', Str (image_path dirs))],
          (image_path dirs, [x, y, int (image_size ds), int (image_size ds)])))"

definition preprocess_for_inference ::
  "dataset \<Rightarrow> raster \<Rightarrow> string \<Rightarrow> string \<Rightarrow>
   error + ('l tile_record \<times> translate_call) list" where
  "preprocess_for_inference ds R image_filename output_dir =
     (let raw_img_width = RasterXSize R; raw_img_height = RasterYSize R
      in case py_range 0 raw_img_width (int (image_size ds)) of
           Inl e \<Rightarrow> Inl e
         | Inr xs \<Rightarrow>
             (case py_range 0 raw_img_height (int (image_size ds)) of
                Inl e \<Rightarrow> Inl e
              | Inr ys \<Rightarrow>
                  Inr (concat (map (\<lambda>x. map (\<lambda>y. preprocess_tile ds x y image_filename
                                                       output_dir) ys) xs))))"

section \<open>Random sampling for training\<close>

text \<open>The variables of the sampling loop, and the files written so far (path and
  content, in the order of the writes).\<close>

record 'l sampler =
  nb_attempts :: int
  image_counter :: int
  empty_image_counter :: int
  result_dicts :: "'l tile_record list"
  saved :: "(string \<times> image) list"

definition initial_sampler :: "'l sampler" where
  "initial_sampler =
     \<lparr>nb_attempts = 0, image_counter = 0, empty_image_counter = 0,
      result_dicts = [], saved = []\<rparr>"

definition serialize ::
  "dataset \<Rightarrow> image \<Rightarrow> image \<Rightarrow> 'l \<Rightarrow> string \<Rightarrow> string \<Rightarrow> int \<Rightarrow> int \<Rightarrow> string option \<Rightarrow>
   (string \<times> image) list \<Rightarrow> 'l tile_record \<times> (string \<times> image) list" where
  "serialize ds tile_image labelled_image label_dict image_filename output_dir x y suffix files =
     (let dirs = generate_preprocessed_filenames ds image_filename output_dir x y suffix
      in ([(''raw_filename'', Str image_filename),
           (''image_filename'', Str (image_path dirs)),
           (''label_filename'', Str (labels_path dirs)),
           (''labels'', LabelDict label_dict)],
          files @ [(image_path dirs, tile_image), (labels_path dirs, labelled_image)]))"

text \<open>The three statements that the loop repeats for each variant of a tile:
  \<^verbatim>\<open>_serialize\<close>, \<^verbatim>\<open>result_dicts.append\<close> and \<^verbatim>\<open>image_counter += 1\<close>.\<close>

definition emit ::
  "dataset \<Rightarrow> image \<Rightarrow> image \<Rightarrow> 'l \<Rightarrow> string \<Rightarrow> string \<Rightarrow> int \<Rightarrow> int \<Rightarrow> string \<Rightarrow>
   'l sampler \<Rightarrow> 'l sampler" where
  "emit ds tile_image labelled_image label_dict image_filename output_dir x y suffix s =
     (let (tiled_results, files) =
            serialize ds tile_image labelled_image label_dict image_filename output_dir x y
              (Some suffix) (saved s)
      in s\<lparr>result_dicts := result_dicts s @ [tiled_results],
           image_counter := image_counter s + 1,
           saved := files\<rparr>)"

text \<open>The branch of the loop body for a tile with buildings: the tile and its three
  reflections are serialized, each with the label dictionary of the tile.\<close>

definition accept_augmented ::
  "dataset \<Rightarrow> image \<Rightarrow> image \<Rightarrow> 'l \<Rightarrow> string \<Rightarrow> string \<Rightarrow> int \<Rightarrow> int \<Rightarrow>
   'l sampler \<Rightarrow> 'l sampler" where
  "accept_augmented ds tile_image labelled_image label_dict image_filename output_dir x y s =
     (let s1 = emit ds tile_image labelled_image label_dict
                 image_filename output_dir x y ''nw'' s;
          tile_image_ne = image_transpose tile_image FLIP_LEFT_RIGHT;
          labelled_image_ne = image_transpose labelled_image FLIP_LEFT_RIGHT;
          s2 = emit ds tile_image_ne labelled_image_ne label_dict
                 image_filename output_dir x y ''ne'' s1;
          tile_image_sw = image_transpose tile_image FLIP_TOP_BOTTOM;
          labelled_image_sw = image_transpose labelled_image FLIP_TOP_BOTTOM;
          s3 = emit ds tile_image_sw labelled_image_sw label_dict
                 image_filename output_dir x y ''sw'' s2;
          tile_image_se = image_transpose tile_image_sw FLIP_LEFT_RIGHT;
          labelled_image_se = image_transpose labelled_image_sw FLIP_LEFT_RIGHT
      in emit ds tile_image_se labelled_image_se label_dict
           image_filename output_dir x y ''se'' s3)"

text \<open>The branch for a tile without buildings that is within the quota.\<close>

definition accept_empty ::
  "dataset \<Rightarrow> image \<Rightarrow> image \<Rightarrow> 'l \<Rightarrow> string \<Rightarrow> string \<Rightarrow> int \<Rightarrow> int \<Rightarrow>
   'l sampler \<Rightarrow> 'l sampler" where
  "accept_empty ds tile_image labelled_image label_dict image_filename output_dir x y s =
     (let s1 = emit ds tile_image labelled_image label_dict
                 image_filename output_dir x y ''nw'' s
      in s1\<lparr>empty_image_counter := empty_image_counter s1 + 1\<rparr>)"

text \<open>One execution of the body of the \<^verbatim>\<open>while\<close> loop of \<^verbatim>\<open>_preprocess_for_training\<close>.
  The raw integers of the two draws of the iteration are \<open>draws k\<close>, where \<open>k\<close> counts
  the iterations. The quota test \<^verbatim>\<open>empty_image_counter < 0.1 * nb_images\<close> is evaluated in
  exact arithmetic; for the counts below \<open>2^50\<close> the double-precision product decides the
  comparison with an integer in the same way.\<close>

definition training_step ::
  "'l services \<Rightarrow> dataset \<Rightarrow> raster \<Rightarrow> (nat \<Rightarrow> int \<times> int) \<Rightarrow> string \<Rightarrow> string \<Rightarrow> int \<Rightarrow>
   'l sampler \<Rightarrow> error + 'l sampler" where
  "training_step svc ds R draws image_filename output_dir nb_images s =
     (case randint 0 (RasterXSize R - int (image_size ds))
             (fst (draws (nat (nb_attempts s)))) of
        Inl e \<Rightarrow> Inl e
      | Inr x \<Rightarrow>
     (case randint 0 (RasterYSize R - int (image_size ds))
             (snd (draws (nat (nb_attempts s)))) of
        Inl e \<Rightarrow> Inl e
      | Inr y \<Rightarrow>
     (let tile_image = tile_data R x y;
          raster_features = image_features R;
          tile_items = clipped_labels R x y
      in case load_mask (poly_cover svc) ds tile_items raster_features x y of
           Inl e \<Rightarrow> Inl e
         | Inr msk \<Rightarrow>
     (let label_dict = build_labels svc msk [0..<get_nb_labels ds] ''tanzania'';
          labelled_image = build_image_from_config svc msk (labels ds);
          s' =
            (if length tile_items > 0 then
               accept_augmented ds tile_image labelled_image label_dict
                 image_filename output_dir x y s
             else if real_of_int (empty_image_counter s) < 0.1 * real_of_int nb_images then
               accept_empty ds tile_image labelled_image label_dict
                 image_filename output_dir x y s
             else s)
      in Inr (s'\<lparr>nb_attempts := nb_attempts s' + 1\<rparr>)))))"

text \<open>The \<^verbatim>\<open>while\<close> loop. An exception raised by the body ends the loop.\<close>

function training_loop ::
  "'l services \<Rightarrow> dataset \<Rightarrow> raster \<Rightarrow> (nat \<Rightarrow> int \<times> int) \<Rightarrow> string \<Rightarrow> string \<Rightarrow> int \<Rightarrow>
   'l sampler \<Rightarrow> error + 'l sampler" where
  "training_loop svc ds R draws image_filename output_dir nb_images s =
     (if image_counter s < nb_images \<and> nb_attempts s < 2 * nb_images then
        (case training_step svc ds R draws image_filename output_dir nb_images s of
           Inl e \<Rightarrow> Inl e
         | Inr s' \<Rightarrow> training_loop svc ds R draws image_filename output_dir nb_images s')
      else Inr s)"
  by pat_completeness auto
termination
proof (relation "measure (\<lambda>(svc, ds, R, draws, image_filename, output_dir, nb_images, s).
                     nat (2 * nb_images - nb_attempts s))")
  show "wf (measure (\<lambda>(svc, ds, R, draws, image_filename, output_dir, nb_images, s).
                     nat (2 * nb_images - nb_attempts (s :: 'l sampler))))"
    by simp
next
  fix svc :: "'l services" and ds R draws image_filename output_dir nb_images
    and s s' :: "'l sampler"
  assume cont: "image_counter s < nb_images \<and> nb_attempts s < 2 * nb_images"
    and step: "training_step svc ds R draws image_filename output_dir nb_images s = Inr s'"
  from step have "nb_attempts s' = nb_attempts s + 1"
    by (auto simp: training_step_def accept_augmented_def accept_empty_def emit_def
                   serialize_def Let_def
             split: sum.splits if_splits)
  with cont show "((svc, ds, R, draws, image_filename, output_dir, nb_images, s'),
                   (svc, ds, R, draws, image_filename, output_dir, nb_images, s))
                  \<in> measure (\<lambda>(svc, ds, R, draws, image_filename, output_dir, nb_images, s).
                       nat (2 * nb_images - nb_attempts s))"
    by simp
qed

text \<open>The number of times the loop executes its body, counted along the same loop
  (an execution that raises is counted).\<close>

function loop_iterations ::
  "'l services \<Rightarrow> dataset \<Rightarrow> raster \<Rightarrow> (nat \<Rightarrow> int \<times> int) \<Rightarrow> string \<Rightarrow> string \<Rightarrow> int \<Rightarrow>
   'l sampler \<Rightarrow> nat" where
  "loop_iterations svc ds R draws image_filename output_dir nb_images s =
     (if image_counter s < nb_images \<and> nb_attempts s < 2 * nb_images then
        (case training_step svc ds R draws image_filename output_dir nb_images s of
           Inl e \<Rightarrow> 1
         | Inr s' \<Rightarrow>
             1 + loop_iterations svc ds R draws image_filename output_dir nb_images s')
      else 0)"
  by pat_completeness auto
termination
proof (relation "measure (\<lambda>(svc, ds, R, draws, image_filename, output_dir, nb_images, s).
                     nat (2 * nb_images - nb_attempts s))")
  show "wf (measure (\<lambda>(svc, ds, R, draws, image_filename, output_dir, nb_images, s).
                     nat (2 * nb_images - nb_attempts (s :: 'l sampler))))"
    by simp
next
  fix svc :: "'l services" and ds R draws image_filename output_dir nb_images
    and s s' :: "'l sampler"
  assume cont: "image_counter s < nb_images \<and> nb_attempts s < 2 * nb_images"
    and step: "training_step svc ds R draws image_filename output_dir nb_images s = Inr s'"
  from step have "nb_attempts s' = nb_attempts s + 1"
    by (auto simp: training_step_def accept_augmented_def accept_empty_def emit_def
                   serialize_def Let_def
             split: sum.splits if_splits)
  with cont show "((svc, ds, R, draws, image_filename, output_dir, nb_images, s'),
                   (svc, ds, R, draws, image_filename, output_dir, nb_images, s))
                  \<in> measure (\<lambda>(svc, ds, R, draws, image_filename, output_dir, nb_images, s).
                       nat (2 * nb_images - nb_attempts s))"
    by simp
qed

text \<open>\<^verbatim>\<open>_preprocess_for_training\<close> returns the list of records.\<close>

definition preprocess_for_training ::
  "'l services \<Rightarrow> dataset \<Rightarrow> raster \<Rightarrow> (nat \<Rightarrow> int \<times> int) \<Rightarrow> string \<Rightarrow> string \<Rightarrow> int \<Rightarrow>
   error + 'l tile_record list" where
  "preprocess_for_training svc ds R draws image_filename output_dir nb_images =
     (case training_loop svc ds R draws image_filename output_dir nb_images initial_sampler of
        Inl e \<Rightarrow> Inl e
      | Inr s \<Rightarrow> Inr (result_dicts s))"

section \<open>Observations on the results\<close>

text \<open>The pixel origin of a tile written by \<open>preprocess_for_inference\<close>: the first two
  entries of its window.\<close>

definition srcWin_origin :: "'l tile_record \<times> translate_call \<Rightarrow> int \<times> int" where
  "srcWin_origin t = (snd (snd t) ! 0, snd (snd t) ! 1)"

text \<open>The grid of origins with the given numbers of columns and rows and the given step,
  column by column.\<close>

definition grid_origins :: "nat \<Rightarrow> nat \<Rightarrow> int \<Rightarrow> (int \<times> int) list" where
  "grid_origins nx ny step =
     concat (map (\<lambda>i. map (\<lambda>j. (int i * step, int j * step)) [0..<ny]) [0..<nx])"

text \<open>A raster used in the examples: 100 by 100 pixels over the square from \<open>(0, 0)\<close> to
  \<open>(100, 100)\<close>, the same one-band tile of 2 by 2 pixels at every origin, no building.\<close>

definition example_raster :: raster where
  "example_raster =
     \<lparr>RasterXSize = 100, RasterYSize = 100,
      image_features = \<lparr>west = 0, south = 0, east = 100, north = 100, srid = 32737,
                        width = 100, height = 100\<rparr>,
      tile_data = (\<lambda>x y. [[[1], [2]], [[3], [4]]]),
      clipped_labels = (\<lambda>x y. [])\<rparr>"

text \<open>A square mask of side \<open>n\<close> whose values all belong to \<open>V\<close>.\<close>

definition mask_values_in :: "nat \<Rightarrow> 8 word set \<Rightarrow> mask \<Rightarrow> bool" where
  "mask_values_in n V m =
     (length m = n \<and> (\<forall>row \<in> set m. length row = n \<and> set row \<subseteq> V))"

text \<open>The label names and the label ids of a registry.\<close>

definition registry_names :: "dataset \<Rightarrow> string set" where
  "registry_names ds = label_name ` set (labels ds)"

definition registry_ids :: "dataset \<Rightarrow> int set" where
  "registry_ids ds = label_id ` set (labels ds)"

text \<open>Raster features with a non-degenerate extent on both axes, as the features of
  every raster with a positive pixel size are.\<close>

definition proper_extent :: "raster_features \<Rightarrow> bool" where
  "proper_extent f = (west f \<noteq> east f \<and> north f \<noteq> south f)"

text \<open>Inputs used in the examples: a coverage that fills exactly the vertices of a
  polygon, a triangle in the upper left corner of the example raster whose condition is
  spelt with a capital, and the same triangle with a condition that is no label name.\<close>

definition example_cover :: "points \<Rightarrow> nat \<Rightarrow> nat \<Rightarrow> bool" where
  "example_cover pts r c = ((int r, int c) \<in> set pts)"

definition example_building :: building where
  "example_building =
     \<lparr>condition = ''Complete'', geometry = [(1 / 2, 199 / 2), (3 / 2, 199 / 2), (3 / 2, 197 / 2)]\<rparr>"

definition example_unknown_building :: building where
  "example_unknown_building = example_building\<lparr>condition := ''Damaged''\<rparr>"

definition example_features :: raster_features where
  "example_features = image_features example_raster"


text \<open>What \<^verbatim>\<open>os.path.join\<close> puts before the next component: the directory, followed by a
  separator unless it is empty or ends with one.\<close>

definition dir_prefix :: "string \<Rightarrow> string" where
  "dir_prefix d = (if d = [] \<or> last d = CHR ''/'' then d else d @ ''/'')"

text \<open>Collaborators, draws and a raster with a building in every tile, for the examples.\<close>

definition example_services :: "nat list services" where
  "example_services =
     \<lparr>poly_cover = example_cover,
      build_labels = (\<lambda>m ids name. ids),
      build_image_from_config = (\<lambda>m ls. map (map (\<lambda>v. [unat v])) m)\<rparr>"

definition example_draws :: "nat \<Rightarrow> int \<times> int" where
  "example_draws k = (int k * 7, int k * 13)"

definition example_built_raster :: raster where
  "example_built_raster = example_raster\<lparr>clipped_labels := (\<lambda>x y. [example_building])\<rparr>"

text \<open>The image path and the label path of the variant of a tile with the given
  orientation suffix, and the record of the variant with the given label dictionary.\<close>

definition variant_image_name :: "dataset \<Rightarrow> string \<Rightarrow> string \<Rightarrow> int \<Rightarrow> int \<Rightarrow> string \<Rightarrow> string" where
  "variant_image_name ds f out x y sfx =
     dir_prefix out @ ''images/'' @ new_filename ds f x y (Some sfx)"

definition variant_label_name :: "dataset \<Rightarrow> string \<Rightarrow> string \<Rightarrow> int \<Rightarrow> int \<Rightarrow> string \<Rightarrow> string" where
  "variant_label_name ds f out x y sfx =
     py_replace ''images'' ''labels'' (variant_image_name ds f out x y sfx)"

definition variant_record ::
  "dataset \<Rightarrow> string \<Rightarrow> string \<Rightarrow> int \<Rightarrow> int \<Rightarrow> string \<Rightarrow> 'l \<Rightarrow> 'l tile_record" where
  "variant_record ds f out x y sfx ld =
     [(''raw_filename'', Str f),
      (''image_filename'', Str (variant_image_name ds f out x y sfx)),
      (''label_filename'', Str (variant_label_name ds f out x y sfx)),
      (''labels'', LabelDict ld)]"

text \<open>The loop condition of the sampler.\<close>

definition continues :: "int \<Rightarrow> 'l sampler \<Rightarrow> bool" where
  "continues nb_images s = (image_counter s < nb_images \<and> nb_attempts s < 2 * nb_images)"

text \<open>What holds of the variables of the loop while every drawn tile is empty: every
  accepted tile is an empty one and has one record, the empty tiles stay within the
  quota, and one is accepted at the first attempt when the target is positive.\<close>

definition empty_run_inv :: "int \<Rightarrow> 'l sampler \<Rightarrow> bool" where
  "empty_run_inv n s =
     (image_counter s = empty_image_counter s
      \<and> int (length (result_dicts s)) = empty_image_counter s
      \<and> 10 * empty_image_counter s \<le> n + 9
      \<and> 0 \<le> nb_attempts s
      \<and> (0 < n \<and> 0 < nb_attempts s \<longrightarrow> 1 \<le> empty_image_counter s)
      \<and> 0 \<le> empty_image_counter s)"

section \<open>Helper lemmas on the coordinate transforms\<close>






text \<open>In exact arithmetic the pixel of the geographic coordinate of an integer pixel is
  that pixel, with no truncation error. Whatever deviation the two functions show on
  integer pixels is therefore produced by the rounding of the double-precision
  operations, which this embedding does not represent.\<close>

lemma py_int_of_int: "py_int (real_of_int p) = p"
  by (simp add: py_int_def)

lemma roundtrip_exact_arithmetic:
  assumes "max_coord \<noteq> min_coord" and "sz \<noteq> 0"
  shows "get_geocoord (PyInt p) min_coord max_coord sz
           = Inr (PyFloat (min_coord + real_of_int p * (max_coord - min_coord) / real_of_int sz))"
    and "get_pixel (PyFloat (min_coord + real_of_int p * (max_coord - min_coord) / real_of_int sz))
           min_coord max_coord sz = Inr (PyInt p)"
proof -
  show "get_geocoord (PyInt p) min_coord max_coord sz
           = Inr (PyFloat (min_coord + real_of_int p * (max_coord - min_coord) / real_of_int sz))"
    using assms by (simp add: get_geocoord_def geocoord_of_def py_truediv_def)
  have "real_of_int sz * (min_coord + real_of_int p * (max_coord - min_coord) / real_of_int sz - min_coord)
          / (max_coord - min_coord) = real_of_int p"
    using assms by (simp add: field_simps)
  then show "get_pixel (PyFloat (min_coord + real_of_int p * (max_coord - min_coord) / real_of_int sz))
           min_coord max_coord sz = Inr (PyInt p)"
    using assms by (simp add: get_pixel_def pixel_of_def py_truediv_def py_int_of_int)
qed







section \<open>The type dispatch of the coordinate transforms\<close>




section \<open>Exhaustive tiling\<close>

lemma py_range_pos:
  "0 < step \<Longrightarrow> py_range 0 stop step
     = Inr (map (\<lambda>k. int k * step) [0..<nat ((stop + step - 1) div step)])"
  by (simp add: py_range_def)

lemma srcWin_origin_preprocess_tile:
  "srcWin_origin (preprocess_tile ds x y f out) = (x, y)"
  by (simp add: srcWin_origin_def preprocess_tile_def Let_def)

lemma preprocess_for_inference_pos:
  assumes "0 < image_size ds"
  shows "preprocess_for_inference ds R f out =
     Inr (concat (map (\<lambda>x. map (\<lambda>y. preprocess_tile ds x y f out)
                 (map (\<lambda>k. int k * int (image_size ds))
                    [0..<nat ((RasterYSize R + int (image_size ds) - 1) div int (image_size ds))]))
                 (map (\<lambda>k. int k * int (image_size ds))
                    [0..<nat ((RasterXSize R + int (image_size ds) - 1) div int (image_size ds))])))"
proof -
  from assms have ipos: "0 < int (image_size ds)" by simp
  show ?thesis
    by (simp add: preprocess_for_inference_def Let_def py_range_pos[OF ipos])
qed

text \<open>C7. In exhaustive mode every record comes from a cell of the grid that starts at
  \<open>0\<close> on both axes and advances by the tile size: for a positive tile size the origins of
  the windows are the grid with \<open>\<lceil>width / size\<rceil>\<close> columns and \<open>\<lceil>height / size\<rceil>\<close> rows,
  in that order, every window has the tile size, and a record has the keys
  \<^verbatim>\<open>raw_filename\<close> and \<^verbatim>\<open>image_filename\<close> only (no labels). The function takes no
  random draw. On a raster of 100 by 100 pixels with tiles of size 50 there are exactly
  4 records, with the origins \<open>(0,0)\<close>, \<open>(0,50)\<close>, \<open>(50,0)\<close> and \<open>(50,50)\<close>.\<close>

theorem exhaustive_tiling:
  "(0 < image_size ds \<longrightarrow>
      (\<exists>ts :: ('l tile_record \<times> translate_call) list.
         preprocess_for_inference ds R f out = Inr ts
         \<and> map srcWin_origin ts
             = grid_origins (nat ((RasterXSize R + int (image_size ds) - 1) div int (image_size ds)))
                 (nat ((RasterYSize R + int (image_size ds) - 1) div int (image_size ds)))
                 (int (image_size ds))
         \<and> (\<forall>t \<in> set ts. map fst (fst t) = [''raw_filename'', ''image_filename'']
                \<and> snd (snd t) = [fst (srcWin_origin t), snd (srcWin_origin t),
                                  int (image_size ds), int (image_size ds)])))
   \<and> (image_size ds = 50 \<and> RasterXSize R = 100 \<and> RasterYSize R = 100 \<longrightarrow>
      (\<exists>ts :: ('l tile_record \<times> translate_call) list.
         preprocess_for_inference ds R f out = Inr ts \<and> length ts = 4
         \<and> map srcWin_origin ts = [(0, 0), (0, 50), (50, 0), (50, 50)]))"
proof -
  have gen: "\<exists>ts :: ('l tile_record \<times> translate_call) list.
         preprocess_for_inference ds R f out = Inr ts
         \<and> map srcWin_origin ts
             = grid_origins (nat ((RasterXSize R + int (image_size ds) - 1) div int (image_size ds)))
                 (nat ((RasterYSize R + int (image_size ds) - 1) div int (image_size ds)))
                 (int (image_size ds))
         \<and> (\<forall>t \<in> set ts. map fst (fst t) = [''raw_filename'', ''image_filename'']
                \<and> snd (snd t) = [fst (srcWin_origin t), snd (srcWin_origin t),
                                  int (image_size ds), int (image_size ds)])"
    if pos: "0 < image_size ds"
  proof (intro exI conjI)
    show "preprocess_for_inference ds R f out = Inr (concat (map (\<lambda>x. map (\<lambda>y. preprocess_tile ds x y f out)
                 (map (\<lambda>k. int k * int (image_size ds))
                    [0..<nat ((RasterYSize R + int (image_size ds) - 1) div int (image_size ds))]))
                 (map (\<lambda>k. int k * int (image_size ds))
                    [0..<nat ((RasterXSize R + int (image_size ds) - 1) div int (image_size ds))])))"
      by (rule preprocess_for_inference_pos[OF pos])
  next
    show "map srcWin_origin (concat (map (\<lambda>x. map (\<lambda>y. preprocess_tile ds x y f out)
                 (map (\<lambda>k. int k * int (image_size ds))
                    [0..<nat ((RasterYSize R + int (image_size ds) - 1) div int (image_size ds))]))
                 (map (\<lambda>k. int k * int (image_size ds))
                    [0..<nat ((RasterXSize R + int (image_size ds) - 1) div int (image_size ds))])))
             = grid_origins (nat ((RasterXSize R + int (image_size ds) - 1) div int (image_size ds)))
                 (nat ((RasterYSize R + int (image_size ds) - 1) div int (image_size ds)))
                 (int (image_size ds))"
      by (simp add: grid_origins_def map_concat comp_def srcWin_origin_preprocess_tile)
  next
    show "\<forall>t \<in> set (concat (map (\<lambda>x. map (\<lambda>y. preprocess_tile ds x y f out)
                 (map (\<lambda>k. int k * int (image_size ds))
                    [0..<nat ((RasterYSize R + int (image_size ds) - 1) div int (image_size ds))]))
                 (map (\<lambda>k. int k * int (image_size ds))
                    [0..<nat ((RasterXSize R + int (image_size ds) - 1) div int (image_size ds))]))).
             map fst (fst t) = [''raw_filename'', ''image_filename'']
                \<and> snd (snd t) = [fst (srcWin_origin t), snd (srcWin_origin t),
                                  int (image_size ds), int (image_size ds)]"
      by (auto simp: preprocess_tile_def Let_def srcWin_origin_def)
  qed
  have inst: "\<exists>ts :: ('l tile_record \<times> translate_call) list.
         preprocess_for_inference ds R f out = Inr ts \<and> length ts = 4
         \<and> map srcWin_origin ts = [(0, 0), (0, 50), (50, 0), (50, 50)]"
    if h: "image_size ds = 50 \<and> RasterXSize R = 100 \<and> RasterYSize R = 100"
  proof -
    from h have "0 < image_size ds" by simp
    from gen[OF this] obtain ts :: "('l tile_record \<times> translate_call) list" where
      ts: "preprocess_for_inference ds R f out = Inr ts"
          "map srcWin_origin ts = grid_origins (nat ((RasterXSize R + int (image_size ds) - 1) div int (image_size ds)))
                 (nat ((RasterYSize R + int (image_size ds) - 1) div int (image_size ds)))
                 (int (image_size ds))"
      by blast
    have two: "[0..<2] = [0, Suc 0]" by (simp add: upt_rec)
    from h ts(2) have o: "map srcWin_origin ts = [(0, 0), (0, 50), (50, 0), (50, 50)]"
      by (simp add: grid_origins_def two)
    then have "length (map srcWin_origin ts) = 4" by simp
    then have "length ts = 4" by simp
    with ts(1) o show ?thesis by (intro exI[of _ ts]) simp
  qed
  from gen inst show ?thesis by blast
qed

text \<open>The tiling of the example raster of 100 by 100 pixels with tiles of size 50.\<close>

theorem exhaustive_tiling_witness:
  "(\<exists>ts. preprocess_for_inference (TanzaniaDataset 50) example_raster ''a/images/t.tif'' ''out''
            = Inr (ts :: (unit tile_record \<times> translate_call) list)
         \<and> length ts = 4
         \<and> map srcWin_origin ts = [(0, 0), (0, 50), (50, 0), (50, 50)])"
  using exhaustive_tiling[where ?'l = unit, of "TanzaniaDataset 50" example_raster "''a/images/t.tif''" "''out''"]
  by (simp add: TanzaniaDataset_def add_label_def Dataset_init_def example_raster_def)

section \<open>Properties of the rasterisation\<close>

lemma comprehension_pixel_of_floats:
  assumes "max_coord \<noteq> min_coord"
  shows "comprehension (pixel_of min_coord max_coord sz) (map PyFloat xs)
         = Inr (map (\<lambda>x. py_int (real_of_int sz * (x - min_coord) / (max_coord - min_coord))) xs)"
  using assms by (induction xs) (simp_all add: pixel_of_def py_truediv_def)

lemma get_pixel_floats:
  assumes "max_coord \<noteq> min_coord"
  shows "get_pixel (PyList (map PyFloat xs)) min_coord max_coord sz
         = Inr (PyList (map PyInt
             (map (\<lambda>x. py_int (real_of_int sz * (x - min_coord) / (max_coord - min_coord))) xs)))"
  by (simp add: get_pixel_def comprehension_pixel_of_floats[OF assms])

lemma int_items_ints: "int_items (PyList (map PyInt ps)) = ps"
  by (simp add: comp_def)

lemma extract_points_nondegenerate:
  assumes "west f \<noteq> east f" and "north f \<noteq> south f"
  shows "extract_points_from_polygon p f min_x min_y =
           (if p = [] then Inl IndexError
            else Inr (map (\<lambda>(x, y).
                   (py_int (real_of_int (height f) * (y - north f) / (south f - north f)) - min_y,
                    py_int (real_of_int (width f) * (x - west f) / (east f - west f)) - min_x)) p))"
proof -
  have e: "east f \<noteq> west f" and s: "south f \<noteq> north f" using assms by auto
  show ?thesis
    unfolding extract_points_from_polygon_def Let_def
      get_pixel_floats[OF e] get_pixel_floats[OF s]
    by (simp add: comp_def zip_map_map zip_same_conv_map case_prod_beta)
qed

lemma matching_ids_empty:
  "[label_id l. l \<leftarrow> ls, label_name l = name] = [] \<longleftrightarrow> name \<notin> label_name ` set ls"
  by (induction ls) auto

lemma lookup_label_id_Inl:
  "lookup_label_id ds name = Inl e \<longleftrightarrow> (e = IndexError \<and> name \<notin> registry_names ds)"
proof (cases "[label_id l. l \<leftarrow> labels ds, label_name l = name]")
  case Nil
  have r: "lookup_label_id ds name = Inl IndexError"
    unfolding lookup_label_id_def Nil by simp
  have "name \<notin> registry_names ds"
    using Nil unfolding matching_ids_empty registry_names_def .
  with r show ?thesis by auto
next
  case (Cons i ids)
  have r: "lookup_label_id ds name = Inr i"
    unfolding lookup_label_id_def Cons by simp
  have "[label_id l. l \<leftarrow> labels ds, label_name l = name] \<noteq> []"
    unfolding Cons by simp
  then have "name \<in> registry_names ds"
    unfolding matching_ids_empty registry_names_def by simp
  with r show ?thesis by auto
qed

lemma lookup_label_id_Inr:
  "lookup_label_id ds name = Inr i \<Longrightarrow> i \<in> registry_ids ds"
proof -
  assume a: "lookup_label_id ds name = Inr i"
  then obtain ids where "[label_id l. l \<leftarrow> labels ds, label_name l = name] = i # ids"
    unfolding lookup_label_id_def
    by (cases "[label_id l. l \<leftarrow> labels ds, label_name l = name]") simp_all
  then have "i \<in> set [label_id l. l \<leftarrow> labels ds, label_name l = name]"
    by simp
  then show ?thesis by (auto simp: registry_ids_def)
qed

lemma Tanzania_label_ids: "registry_ids (TanzaniaDataset n) = {0, 1, 2, 3}"
  by (auto simp: registry_ids_def TanzaniaDataset_def add_label_def Dataset_init_def)

lemma Tanzania_label_names:
  "registry_names (TanzaniaDataset n)
     = {''background'', ''complete'', ''incomplete'', ''foundation''}"
  by (auto simp: registry_names_def TanzaniaDataset_def add_label_def Dataset_init_def)

lemma Tanzania_image_size: "image_size (TanzaniaDataset n) = n"
  by (simp add: TanzaniaDataset_def add_label_def Dataset_init_def)

lemma fillPoly_shape:
  "length (fillPoly cov m pts c) = length m"
  by (simp add: fillPoly_def)

lemma fillPoly_rows:
  assumes "row' \<in> set (fillPoly cov m pts c)"
  shows "\<exists>row \<in> set m. length row' = length row
           \<and> set row' \<subseteq> insert (saturate_uint8 c) (set row)"
proof -
  from assms obtain r row where rr: "(r, row) \<in> set (zip [0..<length m] m)"
    and row': "row' = map (\<lambda>(c', v). if cov pts r c' then saturate_uint8 c else v)
                         (zip [0..<length row] row)"
    unfolding fillPoly_def by auto
  from rr have "row \<in> set m" by (auto dest: set_zip_rightD)
  moreover have "length row' = length row" using row' by simp
  moreover have "set row' \<subseteq> insert (saturate_uint8 c) (set row)"
  proof
    fix v assume "v \<in> set row'"
    with row' obtain c' v0 where "(c', v0) \<in> set (zip [0..<length row] row)"
      and v: "v = (if cov pts r c' then saturate_uint8 c else v0)"
      by auto
    then have "v0 \<in> set row" by (auto dest: set_zip_rightD)
    with v show "v \<in> insert (saturate_uint8 c) (set row)" by simp
  qed
  ultimately show ?thesis by blast
qed


lemma fillPoly_values:
  assumes "mask_values_in n V m" and "saturate_uint8 c \<in> V"
  shows "mask_values_in n V (fillPoly cov m pts c)"
  unfolding mask_values_in_def
proof (intro conjI ballI)
  show "length (fillPoly cov m pts c) = n"
    using assms(1) by (simp add: fillPoly_shape mask_values_in_def)
next
  fix row' assume "row' \<in> set (fillPoly cov m pts c)"
  from fillPoly_rows[OF this] obtain row where row: "row \<in> set m"
    "length row' = length row" "set row' \<subseteq> insert (saturate_uint8 c) (set row)"
    by blast
  from row(1) assms(1) have "length row = n" "set row \<subseteq> V"
    by (auto simp: mask_values_in_def)
  with row assms(2) show "length row' = n" and "set row' \<subseteq> V" by auto
qed

lemma np_zeros_values: "0 \<in> V \<Longrightarrow> mask_values_in n V (np_zeros n n)"
  by (auto simp: mask_values_in_def np_zeros_def)

lemma load_mask_rows_values:
  assumes "saturate_uint8 ` registry_ids ds \<subseteq> V"
  shows "mask_values_in n V m \<Longrightarrow>
         load_mask_rows cov ds f min_x min_y m rows = Inr m' \<Longrightarrow> mask_values_in n V m'"
proof (induction rows arbitrary: m)
  case Nil
  then show ?case by simp
next
  case (Cons row rows)
  from Cons.prems(2) obtain pts lid where
    pts: "extract_points_from_polygon (geometry row) f min_x min_y = Inr pts"
    and lid: "lookup_label_id ds (py_lower (condition row)) = Inr lid"
    and rest: "load_mask_rows cov ds f min_x min_y (fillPoly cov m pts lid) rows = Inr m'"
    by (auto split: sum.splits)
  from lookup_label_id_Inr[OF lid] assms have "saturate_uint8 lid \<in> V" by auto
  with Cons.prems(1) have "mask_values_in n V (fillPoly cov m pts lid)"
    by (rule fillPoly_values)
  from Cons.IH[OF this rest] show ?case .
qed

lemma load_mask_rows_returns:
  assumes "proper_extent f"
  shows "\<forall>b \<in> set rows. py_lower (condition b) \<in> registry_names ds \<and> geometry b \<noteq> [] \<Longrightarrow>
         \<exists>m'. load_mask_rows cov ds f min_x min_y m rows = Inr m'"
proof (induction rows arbitrary: m)
  case Nil
  then show ?case by simp
next
  case (Cons row rows)
  from assms have ext: "west f \<noteq> east f" "north f \<noteq> south f"
    by (auto simp: proper_extent_def)
  from Cons.prems have g: "geometry row \<noteq> []"
    and c: "py_lower (condition row) \<in> registry_names ds" by auto
  from g obtain pts where
    pts: "extract_points_from_polygon (geometry row) f min_x min_y = Inr pts"
    by (simp add: extract_points_nondegenerate[OF ext])
  from c obtain lid where lid: "lookup_label_id ds (py_lower (condition row)) = Inr lid"
    using lookup_label_id_Inl[of ds "py_lower (condition row)"]
    by (cases "lookup_label_id ds (py_lower (condition row))") auto
  from Cons.prems have "\<forall>b \<in> set rows. py_lower (condition b) \<in> registry_names ds \<and> geometry b \<noteq> []"
    by simp
  from Cons.IH[OF this, of "fillPoly cov m pts lid"] pts lid show ?case by simp
qed

lemma load_mask_rows_unmatched:
  assumes "\<exists>b \<in> set rows. py_lower (condition b) \<notin> registry_names ds"
  shows "(\<exists>e. load_mask_rows cov ds f min_x min_y m rows = Inl e)
         \<and> (proper_extent f \<longrightarrow> load_mask_rows cov ds f min_x min_y m rows = Inl IndexError)"
  using assms
proof (induction rows arbitrary: m)
  case Nil
  then show ?case by simp
next
  case (Cons row rows)
  show ?case
  proof (cases "extract_points_from_polygon (geometry row) f min_x min_y")
    case (Inl e)
    have "proper_extent f \<longrightarrow> e = IndexError"
    proof
      assume "proper_extent f"
      then have ext: "west f \<noteq> east f" "north f \<noteq> south f"
        by (auto simp: proper_extent_def)
      from Inl show "e = IndexError"
        by (simp add: extract_points_nondegenerate[OF ext] split: if_splits)
    qed
    with Inl show ?thesis by simp
  next
    case (Inr pts)
    show ?thesis
    proof (cases "lookup_label_id ds (py_lower (condition row))")
      case (Inl e)
      then have "e = IndexError" using lookup_label_id_Inl by blast
      with Inl Inr show ?thesis by simp
    next
      case lid: (Inr lid)
      then have "py_lower (condition row) \<in> registry_names ds"
        using lookup_label_id_Inl[of ds "py_lower (condition row)" IndexError] by auto
      with Cons.prems have "\<exists>b \<in> set rows. py_lower (condition b) \<notin> registry_names ds"
        by auto
      from Cons.IH[OF this, of "fillPoly cov m pts lid"] Inr lid show ?thesis by simp
    qed
  qed
qed

lemma saturate_small: "saturate_uint8 ` {0, 1, 2, 3} = {0, 1, 2, 3}"
  by (simp add: saturate_uint8_def)

section \<open>The values of a mask\<close>

text \<open>C8. The ids of the registry of the Tanzania dataset are \<open>0\<close>, \<open>1\<close>, \<open>2\<close> and \<open>3\<close>.
  Every mask that \<open>load_mask\<close> returns is a square of side \<open>image_size\<close> whose values
  are ids of the registry; for an empty set of buildings the mask is returned and holds
  the background id \<open>0\<close> everywhere. When every condition matches a label name of the
  registry (and, for the conversion to pixels to succeed, every polygon has a vertex and
  the raster extent is not degenerate), a mask is returned.\<close>

theorem load_mask_valid_ids:
  "(\<forall>b \<in> set buildings. py_lower (condition b) \<in> registry_names (TanzaniaDataset n)) \<longrightarrow>
     registry_ids (TanzaniaDataset n) = {0, 1, 2, 3}
     \<and> (\<forall>m. load_mask cov (TanzaniaDataset n) buildings f min_x min_y = Inr m \<longrightarrow>
            mask_values_in n (word_of_int ` registry_ids (TanzaniaDataset n)) m
            \<and> mask_values_in n {0, 1, 2, 3} m)
     \<and> load_mask cov (TanzaniaDataset n) [] f min_x min_y = Inr (replicate n (replicate n 0))
     \<and> ((\<forall>b \<in> set buildings. geometry b \<noteq> []) \<and> proper_extent f \<longrightarrow>
            (\<exists>m. load_mask cov (TanzaniaDataset n) buildings f min_x min_y = Inr m))"
proof (intro impI conjI allI)
  show ids: "registry_ids (TanzaniaDataset n) = {0, 1, 2, 3}"
    by (rule Tanzania_label_ids)
  have V: "word_of_int ` registry_ids (TanzaniaDataset n) = ({0, 1, 2, 3} :: 8 word set)"
    unfolding ids by simp
  have sat: "saturate_uint8 ` registry_ids (TanzaniaDataset n) \<subseteq> {0, 1, 2, 3}"
    unfolding ids saturate_small by simp
  have vals: "mask_values_in n {0, 1, 2, 3} m"
    if r: "load_mask cov (TanzaniaDataset n) buildings f min_x min_y = Inr m" for m
  proof (cases "buildings = []")
    case True
    with r have "m = np_zeros n n"
      by (simp add: load_mask_def Tanzania_image_size Let_def)
    then show ?thesis by (simp add: np_zeros_values)
  next
    case False
    with r have "load_mask_rows cov (TanzaniaDataset n) f min_x min_y (np_zeros n n) buildings
                 = Inr m"
      by (simp add: load_mask_def Tanzania_image_size Let_def)
    from load_mask_rows_values[OF sat _ this, of n] show ?thesis
      by (simp add: np_zeros_values)
  qed
  fix m assume r: "load_mask cov (TanzaniaDataset n) buildings f min_x min_y = Inr m"
  from vals[OF r] show "mask_values_in n {0, 1, 2, 3} m" .
  from vals[OF r] show "mask_values_in n (word_of_int ` registry_ids (TanzaniaDataset n)) m"
    unfolding V .
next
  show "load_mask cov (TanzaniaDataset n) [] f min_x min_y = Inr (replicate n (replicate n 0))"
    by (simp add: load_mask_def np_zeros_def Tanzania_image_size Let_def)
next
  assume c: "\<forall>b \<in> set buildings. py_lower (condition b) \<in> registry_names (TanzaniaDataset n)"
    and g: "(\<forall>b \<in> set buildings. geometry b \<noteq> []) \<and> proper_extent f"
  then have all: "\<forall>b \<in> set buildings.
      py_lower (condition b) \<in> registry_names (TanzaniaDataset n) \<and> geometry b \<noteq> []"
    by blast
  from g have "proper_extent f" by simp
  from load_mask_rows_returns[OF this all] obtain m' where
    "load_mask_rows cov (TanzaniaDataset n) f min_x min_y (np_zeros n n) buildings = Inr m'"
    by blast
  then show "\<exists>m. load_mask cov (TanzaniaDataset n) buildings f min_x min_y = Inr m"
    by (simp add: load_mask_def Tanzania_image_size Let_def)
qed

text \<open>The mask of the example triangle on a tile of size 2: its three vertices carry the
  id \<open>1\<close> of \<^verbatim>\<open>complete\<close>, the fourth pixel the background id.\<close>

theorem load_mask_valid_ids_witness:
  "load_mask example_cover (TanzaniaDataset 2) [example_building] example_features 0 0
     = Inr [[1, 1], [0, 1]]
   \<and> mask_values_in 2 {0, 1, 2, 3} [[1, 1], [0, 1]]
   \<and> load_mask example_cover (TanzaniaDataset 2) [] example_features 0 0 = Inr [[0, 0], [0, 0]]"
proof -
  have c: "\<forall>b \<in> set [example_building].
             py_lower (condition b) \<in> registry_names (TanzaniaDataset 2)"
    by (simp add: Tanzania_label_names example_building_def py_lower_def lower_char_def)
  have r: "load_mask example_cover (TanzaniaDataset 2) [example_building] example_features 0 0
           = Inr [[1, 1], [0, 1]]"
    by (simp add: load_mask_def np_zeros_def example_building_def example_features_def
         example_raster_def extract_points_from_polygon_def get_pixel_def pixel_of_def
         py_truediv_def py_int_def lookup_label_id_def TanzaniaDataset_def add_label_def
         Dataset_init_def py_lower_def lower_char_def fillPoly_def example_cover_def
         saturate_uint8_def Let_def upt_rec numeral_2_eq_2)
  have two: "replicate 2 (replicate 2 (0 :: 8 word)) = [[0, 0], [0, 0]]"
    by (simp add: numeral_2_eq_2)
  from load_mask_valid_ids
         [of "[example_building]" 2 example_cover example_features 0 0] c r two
  show ?thesis by simp
qed

section \<open>A condition that is no label name\<close>

text \<open>C10. When the set of buildings is not empty and some condition, lowercased, is no
  label name of the registry, \<open>load_mask\<close> raises: it neither skips the polygon nor
  returns a mask. The exception is the \<^verbatim>\<open>IndexError\<close> of the lookup (or of the vertex
  array of an empty polygon met before it) whenever the raster extent is not degenerate,
  as it is for every raster with a positive pixel size.\<close>

theorem load_mask_unmatched_condition:
  "buildings \<noteq> [] \<and> (\<exists>b \<in> set buildings. py_lower (condition b) \<notin> registry_names ds) \<longrightarrow>
     (\<exists>e. load_mask cov ds buildings f min_x min_y = Inl e)
     \<and> (proper_extent f \<longrightarrow> load_mask cov ds buildings f min_x min_y = Inl IndexError)"
proof
  assume h: "buildings \<noteq> [] \<and> (\<exists>b \<in> set buildings. py_lower (condition b) \<notin> registry_names ds)"
  then have eq: "load_mask cov ds buildings f min_x min_y
         = load_mask_rows cov ds f min_x min_y (np_zeros (image_size ds) (image_size ds)) buildings"
    by (simp add: load_mask_def Let_def)
  from h have "\<exists>b \<in> set buildings. py_lower (condition b) \<notin> registry_names ds" by simp
  from load_mask_rows_unmatched[OF this] show
    "(\<exists>e. load_mask cov ds buildings f min_x min_y = Inl e)
     \<and> (proper_extent f \<longrightarrow> load_mask cov ds buildings f min_x min_y = Inl IndexError)"
    unfolding eq by blast
qed

text \<open>A building with the condition \<^verbatim>\<open>Damaged\<close>, after a building that is rasterised.\<close>

theorem load_mask_unmatched_condition_witness:
  "load_mask example_cover (TanzaniaDataset 2) [example_building, example_unknown_building]
     example_features 0 0 = Inl IndexError"
proof -
  have n: "py_lower (condition example_unknown_building) \<notin> registry_names (TanzaniaDataset 2)"
    by (simp add: Tanzania_label_names example_unknown_building_def example_building_def
          py_lower_def lower_char_def)
  have p: "proper_extent example_features"
    by (simp add: proper_extent_def example_features_def example_raster_def)
  from load_mask_unmatched_condition
         [of "[example_building, example_unknown_building]" "TanzaniaDataset 2"
             example_cover example_features 0 0] n p
  show ?thesis by simp
qed

section \<open>Properties of the file names\<close>









lemma basename_eq: "basename p = rev (takeWhile (\<lambda>d. d \<noteq> CHR ''/'') (rev p))"
proof (cases "CHR ''/'' \<in> set p")
  case True
  let ?tw = "takeWhile (\<lambda>d. d \<noteq> CHR ''/'') (rev p)"
  have le: "length ?tw \<le> length p"
    using length_takeWhile_le[of "\<lambda>d. d \<noteq> CHR ''/''" "rev p"] by simp
  have "rev ?tw = rev (take (length ?tw) (rev p))"
    by (rule arg_cong[where f = rev], rule takeWhile_eq_take)
  also have "\<dots> = drop (length p - length ?tw) p"
    by (simp add: rev_take)
  finally have r: "rev ?tw = drop (length p - length ?tw) p" .
  from le have "nat (int (length p) - 1 - int (length ?tw) + 1) = length p - length ?tw"
    by simp
  with True r show ?thesis
    by (simp add: basename_def py_rfind_def)
next
  case False
  then have tw: "takeWhile (\<lambda>d. d \<noteq> CHR ''/'') (rev p) = rev p"
    by (auto simp: takeWhile_eq_all_conv)
  from False have "basename p = p"
    by (simp add: basename_def py_rfind_def)
  then show ?thesis unfolding tw by simp
qed

lemma basename_no_sep: "CHR ''/'' \<notin> set (basename p)"
proof
  assume "CHR ''/'' \<in> set (basename p)"
  then have "CHR ''/'' \<in> set (takeWhile (\<lambda>d. d \<noteq> CHR ''/'') (rev p))"
    by (simp add: basename_eq)
  then show False by (auto dest: set_takeWhileD)
qed

lemma splitext_fst_subset: "set (fst (splitext q)) \<subseteq> set q"
  by (auto simp: splitext_def Let_def dest: in_set_takeD)

lemma new_filename_shape:
  "new_filename ds f x y sfx =
     fst (splitext (basename f)) @ ''_'' @ py_str (int (image_size ds)) @ ''_''
       @ py_str (int (image_size ds)) @ ''_'' @ py_str x @ ''_'' @ py_str y
       @ (case sfx of None \<Rightarrow> [] | Some t \<Rightarrow> ''_'' @ t) @ ''.png''"
  by (cases sfx) (simp_all add: new_filename_def Let_def)

lemma new_filename_hd:
  "new_filename ds f x y sfx \<noteq> [] \<and> hd (new_filename ds f x y sfx) \<noteq> CHR ''/''"
proof (cases "fst (splitext (basename f))")
  case Nil
  then show ?thesis by (simp add: new_filename_shape)
next
  case (Cons c cs)
  then have "c \<in> set (basename f)"
    using splitext_fst_subset[of "basename f"] by auto
  with basename_no_sep[of f] have "c \<noteq> CHR ''/''" by auto
  with Cons show ?thesis by (simp add: new_filename_shape)
qed

lemma path_join_images:
  assumes "nf \<noteq> [] \<and> hd nf \<noteq> CHR ''/''"
  shows "path_join out [''images'', nf] = dir_prefix out @ ''images/'' @ nf"
  using assms by (simp add: path_join_def join_step_def dir_prefix_def)







section \<open>Properties of the sampling loop\<close>

declare training_loop.simps [simp del] loop_iterations.simps [simp del]

lemma serialize_eq:
  "serialize ds ti li ld f out x y (Some sfx) files =
     (variant_record ds f out x y sfx ld,
      files @ [(variant_image_name ds f out x y sfx, ti),
               (variant_label_name ds f out x y sfx, li)])"
  by (simp add: serialize_def variant_record_def variant_image_name_def
        variant_label_name_def generate_preprocessed_filenames_def Let_def
        path_join_images[OF new_filename_hd])

lemma emit_eq:
  "emit ds ti li ld f out x y sfx s =
     s\<lparr>result_dicts := result_dicts s @ [variant_record ds f out x y sfx ld],
       image_counter := image_counter s + 1,
       saved := saved s @
         [(variant_image_name ds f out x y sfx, ti),
          (variant_label_name ds f out x y sfx, li)]\<rparr>"
  by (simp add: emit_def serialize_eq)

lemma training_step_Inr:
  assumes "training_step svc ds R draws f out n s = Inr s'"
  obtains x y msk where
    "randint 0 (RasterXSize R - int (image_size ds)) (fst (draws (nat (nb_attempts s)))) = Inr x"
    "randint 0 (RasterYSize R - int (image_size ds)) (snd (draws (nat (nb_attempts s)))) = Inr y"
    "load_mask (poly_cover svc) ds (clipped_labels R x y) (image_features R) x y = Inr msk"
    "s' = (if clipped_labels R x y \<noteq> [] then
             accept_augmented ds (tile_data R x y) (build_image_from_config svc msk (labels ds))
               (build_labels svc msk [0..<get_nb_labels ds] ''tanzania'') f out x y s
           else if real_of_int (empty_image_counter s) < 0.1 * real_of_int n then
             accept_empty ds (tile_data R x y) (build_image_from_config svc msk (labels ds))
               (build_labels svc msk [0..<get_nb_labels ds] ''tanzania'') f out x y s
           else s)
          \<lparr>nb_attempts := nb_attempts
            (if clipped_labels R x y \<noteq> [] then
             accept_augmented ds (tile_data R x y) (build_image_from_config svc msk (labels ds))
               (build_labels svc msk [0..<get_nb_labels ds] ''tanzania'') f out x y s
           else if real_of_int (empty_image_counter s) < 0.1 * real_of_int n then
             accept_empty ds (tile_data R x y) (build_image_from_config svc msk (labels ds))
               (build_labels svc msk [0..<get_nb_labels ds] ''tanzania'') f out x y s
           else s) + 1\<rparr>"
  using assms unfolding training_step_def Let_def
  by (auto split: sum.splits)

lemma accept_augmented_fields:
  "nb_attempts (accept_augmented ds ti li ld f out x y s) = nb_attempts s"
  "image_counter (accept_augmented ds ti li ld f out x y s) = image_counter s + 4"
  "empty_image_counter (accept_augmented ds ti li ld f out x y s) = empty_image_counter s"
  "result_dicts (accept_augmented ds ti li ld f out x y s) =
     result_dicts s @ [variant_record ds f out x y ''nw'' ld, variant_record ds f out x y ''ne'' ld,
                       variant_record ds f out x y ''sw'' ld, variant_record ds f out x y ''se'' ld]"
  "saved (accept_augmented ds ti li ld f out x y s) =
     saved s @
       [(variant_image_name ds f out x y ''nw'', ti),
        (variant_label_name ds f out x y ''nw'', li),
        (variant_image_name ds f out x y ''ne'', image_transpose ti FLIP_LEFT_RIGHT),
        (variant_label_name ds f out x y ''ne'', image_transpose li FLIP_LEFT_RIGHT),
        (variant_image_name ds f out x y ''sw'', image_transpose ti FLIP_TOP_BOTTOM),
        (variant_label_name ds f out x y ''sw'', image_transpose li FLIP_TOP_BOTTOM),
        (variant_image_name ds f out x y ''se'',
           image_transpose (image_transpose ti FLIP_TOP_BOTTOM) FLIP_LEFT_RIGHT),
        (variant_label_name ds f out x y ''se'',
           image_transpose (image_transpose li FLIP_TOP_BOTTOM) FLIP_LEFT_RIGHT)]"
  by (simp_all add: accept_augmented_def emit_eq Let_def del: image_transpose.simps)

lemma accept_empty_fields:
  "nb_attempts (accept_empty ds ti li ld f out x y s) = nb_attempts s"
  "image_counter (accept_empty ds ti li ld f out x y s) = image_counter s + 1"
  "empty_image_counter (accept_empty ds ti li ld f out x y s) = empty_image_counter s + 1"
  "result_dicts (accept_empty ds ti li ld f out x y s) =
     result_dicts s @ [variant_record ds f out x y ''nw'' ld]"
  by (simp_all add: accept_empty_def emit_eq Let_def)

lemma training_step_attempts:
  assumes "training_step svc ds R draws f out n s = Inr s'"
  shows "nb_attempts s' = nb_attempts s + 1"
  using assms
  by (elim training_step_Inr) (simp add: accept_augmented_fields accept_empty_fields)

lemma training_step_counter:
  assumes "training_step svc ds R draws f out n s = Inr s'"
  shows "image_counter s \<le> image_counter s' \<and> image_counter s' \<le> image_counter s + 4"
  using assms
  by (elim training_step_Inr) (simp add: accept_augmented_fields accept_empty_fields)

text \<open>The two unfoldings of the loop.\<close>

lemma training_loop_stop:
  "\<not> continues n s \<Longrightarrow> training_loop svc ds R draws f out n s = Inr s"
  by (auto simp: training_loop.simps[of svc ds R draws f out n s] continues_def)

lemma training_loop_continue:
  "continues n s \<Longrightarrow>
   training_loop svc ds R draws f out n s =
     (case training_step svc ds R draws f out n s of
        Inl e \<Rightarrow> Inl e
      | Inr s' \<Rightarrow> training_loop svc ds R draws f out n s')"
  by (simp add: training_loop.simps[of svc ds R draws f out n s] continues_def)

lemma loop_iterations_stop:
  "\<not> continues n s \<Longrightarrow> loop_iterations svc ds R draws f out n s = 0"
  by (auto simp: loop_iterations.simps[of svc ds R draws f out n s] continues_def)

lemma loop_iterations_continue:
  "continues n s \<Longrightarrow>
   loop_iterations svc ds R draws f out n s =
     (case training_step svc ds R draws f out n s of
        Inl e \<Rightarrow> 1
      | Inr s' \<Rightarrow> 1 + loop_iterations svc ds R draws f out n s')"
  by (simp add: loop_iterations.simps[of svc ds R draws f out n s] continues_def)

text \<open>An invariant of the loop holds, with the negated loop condition, when the loop
  returns.\<close>

lemma training_loop_invariant:
  assumes "\<And>s s'. I s \<Longrightarrow> continues n s \<Longrightarrow>
                   training_step svc ds R draws f out n s = Inr s' \<Longrightarrow> I s'"
    and "I s" and "training_loop svc ds R draws f out n s = Inr s'"
  shows "I s' \<and> \<not> continues n s'"
  using assms
proof (induction svc ds R draws f out n s rule: training_loop.induct)
  case (1 svc ds R draws f out n s)
  note step = "1.prems"(1)
  show ?case
  proof (cases "continues n s")
    case True
    then have c: "image_counter s < n \<and> nb_attempts s < 2 * n" by (simp add: continues_def)
    from "1.prems"(3) obtain s1 where
      s1: "training_step svc ds R draws f out n s = Inr s1"
      and rest: "training_loop svc ds R draws f out n s1 = Inr s'"
      unfolding training_loop_continue[OF True] by (auto split: sum.splits)
    from step[OF "1.prems"(2) True s1] have "I s1" .
    from "1.IH"[OF c s1 step this rest] show ?thesis .
  next
    case False
    with "1.prems"(3) have "s' = s"
      by (simp add: training_loop_stop)
    with "1.prems"(2) False show ?thesis by simp
  qed
qed

text \<open>The loop returns when no execution of its body raises.\<close>

lemma training_loop_returns:
  assumes "\<And>s. I s \<Longrightarrow> continues n s \<Longrightarrow>
             \<exists>s'. training_step svc ds R draws f out n s = Inr s' \<and> I s'"
    and "I s"
  shows "\<exists>s'. training_loop svc ds R draws f out n s = Inr s'"
  using assms
proof (induction svc ds R draws f out n s rule: training_loop.induct)
  case (1 svc ds R draws f out n s)
  note step = "1.prems"(1)
  show ?case
  proof (cases "continues n s")
    case True
    then have c: "image_counter s < n \<and> nb_attempts s < 2 * n" by (simp add: continues_def)
    from step[OF "1.prems"(2) True] obtain s1 where
      s1: "training_step svc ds R draws f out n s = Inr s1" and i1: "I s1" by blast
    from "1.IH"[OF c s1 step i1] obtain s' where
      "training_loop svc ds R draws f out n s1 = Inr s'" by blast
    with s1 have "training_loop svc ds R draws f out n s = Inr s'"
      by (simp add: training_loop_continue[OF True])
    then show ?thesis by blast
  next
    case False
    then show ?thesis by (simp add: training_loop_stop)
  qed
qed

text \<open>The body is executed at most as many times as attempts remain, and the number of
  attempts grows by the number of executions.\<close>

lemma loop_iterations_bound:
  "int (loop_iterations svc ds R draws f out n s) \<le> max 0 (2 * n - nb_attempts s)"
proof (induction svc ds R draws f out n s rule: loop_iterations.induct)
  case (1 svc ds R draws f out n s)
  show ?case
  proof (cases "continues n s")
    case True
    then have c: "image_counter s < n \<and> nb_attempts s < 2 * n" by (simp add: continues_def)
    show ?thesis
    proof (cases "training_step svc ds R draws f out n s")
      case (Inl e)
      with c show ?thesis by (simp add: loop_iterations_continue[OF True])
    next
      case (Inr s1)
      from training_step_attempts[OF Inr] have a: "nb_attempts s1 = nb_attempts s + 1" .
      from "1.IH"[OF c Inr] a c Inr show ?thesis
        by (simp add: loop_iterations_continue[OF True])
    qed
  next
    case False
    then show ?thesis by (simp add: loop_iterations_stop)
  qed
qed

lemma training_loop_attempts:
  assumes "training_loop svc ds R draws f out n s = Inr s'"
  shows "nb_attempts s' = nb_attempts s + int (loop_iterations svc ds R draws f out n s)"
  using assms
proof (induction svc ds R draws f out n s rule: training_loop.induct)
  case (1 svc ds R draws f out n s)
  show ?case
  proof (cases "continues n s")
    case True
    then have c: "image_counter s < n \<and> nb_attempts s < 2 * n" by (simp add: continues_def)
    from "1.prems" obtain s1 where
      s1: "training_step svc ds R draws f out n s = Inr s1"
      and rest: "training_loop svc ds R draws f out n s1 = Inr s'"
      unfolding training_loop_continue[OF True] by (auto split: sum.splits)
    from training_step_attempts[OF s1] have a: "nb_attempts s1 = nb_attempts s + 1" .
    from "1.IH"[OF c s1 rest] a s1 show ?thesis
      by (simp add: loop_iterations_continue[OF True])
  next
    case False
    with "1.prems" have "s' = s" by (simp add: training_loop_stop)
    with False show ?thesis by (simp add: loop_iterations_stop)
  qed
qed

section \<open>Sampling a raster without buildings\<close>

lemma training_step_empty_returns:
  assumes "\<forall>x y. clipped_labels R x y = []"
    and "int (image_size ds) < RasterXSize R" and "int (image_size ds) < RasterYSize R"
  shows "\<exists>s'. training_step svc ds R draws f out n s = Inr s'"
  using assms by (simp add: training_step_def randint_def load_mask_def Let_def)

lemma training_step_empty:
  assumes e: "\<forall>x y. clipped_labels R x y = []"
    and r: "training_step svc ds R draws f out n s = Inr s'"
  shows "(10 * empty_image_counter s < n \<longrightarrow>
            image_counter s' = image_counter s + 1
            \<and> empty_image_counter s' = empty_image_counter s + 1
            \<and> length (result_dicts s') = length (result_dicts s) + 1)
         \<and> (\<not> 10 * empty_image_counter s < n \<longrightarrow>
            image_counter s' = image_counter s
            \<and> empty_image_counter s' = empty_image_counter s
            \<and> result_dicts s' = result_dicts s)
         \<and> nb_attempts s' = nb_attempts s + 1"
proof -
  have q: "real_of_int (empty_image_counter s) < 0.1 * real_of_int n
           \<longleftrightarrow> 10 * empty_image_counter s < n"
  proof -
    have "real_of_int (empty_image_counter s) < 0.1 * real_of_int n
          \<longleftrightarrow> real_of_int (10 * empty_image_counter s) < real_of_int n"
      by (simp add: mult.commute)
    also have "\<dots> \<longleftrightarrow> 10 * empty_image_counter s < n"
      by (rule of_int_less_iff)
    finally show ?thesis .
  qed
  from r e show ?thesis
    by (elim training_step_Inr) (simp add: q accept_empty_fields)
qed

lemma empty_run_inv_step:
  assumes e: "\<forall>x y. clipped_labels R x y = []"
    and i: "empty_run_inv n s"
    and r: "training_step svc ds R draws f out n s = Inr s'"
  shows "empty_run_inv n s'"
  using training_step_empty[OF e r] i
  unfolding empty_run_inv_def
  by (cases "10 * empty_image_counter s < n") auto

section \<open>Termination of the sampling loop\<close>

text \<open>C3. The sampling loop is a total function: its recursion is justified by the
  number of attempts that remain below \<open>2n\<close>, which every execution of the body lowers.
  For a target \<open>n \<ge> 0\<close> the body is executed at most \<open>2n\<close> times; every execution that
  returns increments \<open>nb_attempts\<close> by exactly 1, whether the tile is accepted or not;
  and when the loop returns, \<open>nb_attempts\<close> is the number of executions and the loop
  condition \<open>accepted < n\<close> and \<open>attempts < 2n\<close> is false.\<close>

theorem sampling_loop_terminates:
  "0 \<le> n \<longrightarrow>
     int (loop_iterations svc ds R draws f out n initial_sampler) \<le> 2 * n
     \<and> (\<forall>s s'. training_step svc ds R draws f out n s = Inr s' \<longrightarrow>
            nb_attempts s' = nb_attempts s + 1)
     \<and> (\<forall>s'. training_loop svc ds R draws f out n initial_sampler = Inr s' \<longrightarrow>
            nb_attempts s' = int (loop_iterations svc ds R draws f out n initial_sampler)
            \<and> nb_attempts s' \<le> 2 * n
            \<and> \<not> (image_counter s' < n \<and> nb_attempts s' < 2 * n))"
proof (intro impI conjI allI)
  assume n: "0 \<le> n"
  have "int (loop_iterations svc ds R draws f out n initial_sampler)
        \<le> max 0 (2 * n - nb_attempts (initial_sampler :: 'a sampler))"
    by (rule loop_iterations_bound)
  with n show b: "int (loop_iterations svc ds R draws f out n initial_sampler) \<le> 2 * n"
    by (simp add: initial_sampler_def)
  fix s' :: "'a sampler"
  assume r: "training_loop svc ds R draws f out n initial_sampler = Inr s'"
  from training_loop_attempts[OF r]
  show a: "nb_attempts s' = int (loop_iterations svc ds R draws f out n initial_sampler)"
    by (simp add: initial_sampler_def)
  with b show "nb_attempts s' \<le> 2 * n" by simp
  from training_loop_invariant[where I = "\<lambda>s. True", OF _ _ r]
  show "\<not> (image_counter s' < n \<and> nb_attempts s' < 2 * n)"
    by (simp add: continues_def)
next
  fix s s' :: "'a sampler"
  assume "training_step svc ds R draws f out n s = Inr s'"
  then show "nb_attempts s' = nb_attempts s + 1" by (rule training_step_attempts)
qed


text \<open>Ten tiles asked of the raster with a building in every tile: at most 20 executions.\<close>

theorem sampling_loop_terminates_witness:
  "int (loop_iterations example_services (TanzaniaDataset 2) example_built_raster example_draws
          ''data/images/t.tif'' ''out'' 10 initial_sampler) \<le> 20"
  using sampling_loop_terminates
          [where n = 10 and svc = example_services and ds = "TanzaniaDataset 2"
             and R = example_built_raster and draws = example_draws
             and f = "''data/images/t.tif''" and out = "''out''"]
  by simp

section \<open>The quota of empty tiles\<close>

text \<open>C2. With the target \<open>n = 10\<close> on a raster where every drawn tile has an empty
  clipped label set, the loop executes its body at most 20 times, and when it returns
  there have been at most 20 attempts and at most 1 record has been appended (the list
  that \<open>preprocess_for_training\<close> returns): an empty tile is accepted only while
  \<open>empty_image_counter < 0.1 * 10\<close>, that is while the counter is \<open>0\<close>. When the raster
  is larger than a tile, so that the draws succeed, the loop returns after exactly 20
  attempts with exactly 1 record.\<close>

theorem empty_raster_sampling:
  "(\<forall>x y. clipped_labels R x y = []) \<longrightarrow>
     loop_iterations svc ds R draws f out 10 initial_sampler \<le> 20
     \<and> (\<forall>s'. training_loop svc ds R draws f out 10 initial_sampler = Inr s' \<longrightarrow>
            nb_attempts s' \<le> 20 \<and> length (result_dicts s') \<le> 1
            \<and> preprocess_for_training svc ds R draws f out 10 = Inr (result_dicts s'))
     \<and> (int (image_size ds) < RasterXSize R \<and> int (image_size ds) < RasterYSize R \<longrightarrow>
            (\<exists>s'. training_loop svc ds R draws f out 10 initial_sampler = Inr s'
               \<and> nb_attempts s' = 20 \<and> length (result_dicts s') = 1
               \<and> image_counter s' = 1 \<and> empty_image_counter s' = 1))"
proof (intro impI conjI allI)
  assume e: "\<forall>x y. clipped_labels R x y = []"
  have "int (loop_iterations svc ds R draws f out 10 initial_sampler)
        \<le> max 0 (2 * 10 - nb_attempts (initial_sampler :: 'a sampler))"
    by (rule loop_iterations_bound)
  then show b: "loop_iterations svc ds R draws f out 10 initial_sampler \<le> 20"
    by (simp add: initial_sampler_def)
  have i0: "empty_run_inv 10 (initial_sampler :: 'a sampler)"
    by (simp add: empty_run_inv_def initial_sampler_def)
  have final: "empty_run_inv 10 s' \<and> \<not> continues 10 s'
               \<and> nb_attempts s' = int (loop_iterations svc ds R draws f out 10 initial_sampler)"
    if r: "training_loop svc ds R draws f out 10 initial_sampler = Inr s'" for s'
  proof -
    from training_loop_invariant[where I = "empty_run_inv 10", OF _ i0 r]
         empty_run_inv_step[OF e]
    have "empty_run_inv 10 s' \<and> \<not> continues 10 s'" by blast
    moreover from training_loop_attempts[OF r]
    have "nb_attempts s' = int (loop_iterations svc ds R draws f out 10 initial_sampler)"
      by (simp add: initial_sampler_def)
    ultimately show ?thesis by simp
  qed
  {
    fix s' :: "'a sampler"
    assume r: "training_loop svc ds R draws f out 10 initial_sampler = Inr s'"
    from final[OF r] b show "nb_attempts s' \<le> 20" by simp
    from final[OF r] show "length (result_dicts s') \<le> 1"
      by (simp add: empty_run_inv_def)
    from r show "preprocess_for_training svc ds R draws f out 10 = Inr (result_dicts s')"
      by (simp add: preprocess_for_training_def)
  }
  assume d: "int (image_size ds) < RasterXSize R \<and> int (image_size ds) < RasterYSize R"
  have "\<exists>s'. training_loop svc ds R draws f out 10 (initial_sampler :: 'a sampler) = Inr s'"
  proof (rule training_loop_returns[where I = "\<lambda>s. True"])
    fix s :: "'a sampler"
    from training_step_empty_returns[OF e, of ds svc draws f out 10 s] d
    show "\<exists>s'. training_step svc ds R draws f out 10 s = Inr s' \<and> True" by simp
  qed simp
  then obtain s' :: "'a sampler" where
    r: "training_loop svc ds R draws f out 10 initial_sampler = Inr s'" by blast
  from final[OF r] b have "nb_attempts s' = 20 \<and> length (result_dicts s') = 1
               \<and> image_counter s' = 1 \<and> empty_image_counter s' = 1"
    by (auto simp: empty_run_inv_def continues_def)
  with r show "\<exists>s'. training_loop svc ds R draws f out 10 initial_sampler = Inr s'
               \<and> nb_attempts s' = 20 \<and> length (result_dicts s') = 1
               \<and> image_counter s' = 1 \<and> empty_image_counter s' = 1"
    by blast
qed


text \<open>The example raster, which has no building, with tiles of size 2.\<close>

theorem empty_raster_sampling_witness:
  "\<exists>s'. training_loop example_services (TanzaniaDataset 2) example_raster example_draws
           ''data/images/t.tif'' ''out'' 10 initial_sampler = Inr s'
        \<and> nb_attempts s' = 20 \<and> length (result_dicts s') = 1"
  using empty_raster_sampling
          [where svc = example_services and ds = "TanzaniaDataset 2"
             and R = example_raster and draws = example_draws
             and f = "''data/images/t.tif''" and out = "''out''"]
  by (auto simp: example_raster_def Tanzania_image_size)

section \<open>The accepted counter when the loop ends\<close>

text \<open>C4 (as amended). When the loop returns before the attempts are exhausted
  (\<open>attempts < 2n\<close>), the accepted counter is at least \<open>n\<close> and at most \<open>n + 3\<close>: a tile
  with buildings adds its 4 variants at once, and the target is tested only between
  two draws.\<close>

theorem accepted_counter_at_exit:
  "training_loop svc ds R draws f out n initial_sampler = Inr s' \<and> nb_attempts s' < 2 * n \<longrightarrow>
     n \<le> image_counter s' \<and> image_counter s' \<le> n + 3"
proof
  assume h: "training_loop svc ds R draws f out n initial_sampler = Inr s' \<and> nb_attempts s' < 2 * n"
  then have r: "training_loop svc ds R draws f out n initial_sampler = Inr s'" by simp
  from training_loop_attempts[OF r] have "0 \<le> nb_attempts s'"
    by (simp add: initial_sampler_def)
  with h have n: "0 < n" by simp
  have i0: "image_counter (initial_sampler :: 'a sampler) \<le> n + 3"
    using n by (simp add: initial_sampler_def)
  have step: "image_counter t' \<le> n + 3"
    if "image_counter t \<le> n + 3" "continues n t"
       "training_step svc ds R draws f out n t = Inr t'" for t t' :: "'a sampler"
    using training_step_counter[OF that(3)] that(2) by (simp add: continues_def)
  from training_loop_invariant[where I = "\<lambda>s. image_counter s \<le> n + 3", OF step i0 r]
  have "image_counter s' \<le> n + 3" and "\<not> continues n s'" by simp_all
  with h show "n \<le> image_counter s' \<and> image_counter s' \<le> n + 3"
    by (simp add: continues_def)
qed


text \<open>One tile asked of the raster with a building in every tile: the first draw is
  accepted with its 4 variants.\<close>

theorem accepted_counter_at_exit_witness:
  "(case training_loop example_services (TanzaniaDataset 2) example_built_raster example_draws
           ''data/images/t.tif'' ''out'' 1 initial_sampler of
      Inl e \<Rightarrow> False
    | Inr s \<Rightarrow> nb_attempts s < 2 * 1 \<and> 1 \<le> image_counter s \<and> image_counter s \<le> 1 + 3)"
proof -
  have e: "map_sum id (\<lambda>s. (nb_attempts s, image_counter s))
     (training_loop example_services (TanzaniaDataset 2) example_built_raster example_draws
        ''data/images/t.tif'' ''out'' 1 initial_sampler) = Inr (1, 4)"
    by code_simp
  then obtain s where r: "training_loop example_services (TanzaniaDataset 2)
        example_built_raster example_draws ''data/images/t.tif'' ''out'' 1 initial_sampler = Inr s"
    and a: "nb_attempts s = 1"
    by (cases "training_loop example_services (TanzaniaDataset 2) example_built_raster
                 example_draws ''data/images/t.tif'' ''out'' 1 initial_sampler") auto
  from accepted_counter_at_exit
         [where svc = example_services and ds = "TanzaniaDataset 2"
            and R = example_built_raster and draws = example_draws
            and f = "''data/images/t.tif''" and out = "''out''" and n = 1 and s' = s] r a
  show ?thesis by simp
qed

text \<open>C4 (as stated) fails: in that run the loop ends after 1 attempt, below the budget
  of 2, with the accepted counter at 4 and not at the target 1.\<close>

theorem accepted_counter_counterexample:
  "map_sum id (\<lambda>s. (nb_attempts s, image_counter s))
     (training_loop example_services (TanzaniaDataset 2) example_built_raster example_draws
        ''data/images/t.tif'' ''out'' 1 initial_sampler) = Inr (1, 4)
   \<and> (1 :: int) < 2 * 1 \<and> (4 :: int) \<noteq> 1"
  by code_simp

section \<open>The four variants of a tile with buildings\<close>

lemma variant_image_name_suffix:
  "variant_image_name ds f out x y sfx =
     (dir_prefix out @ ''images/'' @ fst (splitext (basename f)) @ ''_''
        @ py_str (int (image_size ds)) @ ''_'' @ py_str (int (image_size ds)) @ ''_''
        @ py_str x @ ''_'' @ py_str y @ ''_'') @ sfx @ ''.png''"
  by (simp add: variant_image_name_def new_filename_shape)

lemma variant_image_names_distinct:
  "distinct (map (variant_image_name ds f out x y) [''nw'', ''ne'', ''sw'', ''se''])"
  unfolding variant_image_name_suffix by simp

text \<open>C5. An execution of the loop body whose drawn tile, at the origin \<open>(x, y)\<close>, has a
  clipped label set that is not empty appends exactly 4 records: those of the
  orientation suffixes \<^verbatim>\<open>nw\<close>, \<^verbatim>\<open>ne\<close>, \<^verbatim>\<open>sw\<close> and \<^verbatim>\<open>se\<close>, in that order, whose image paths
  are pairwise distinct and which all hold the label dictionary built from the mask of
  the tile. The images written for them are the tile and its labelled image, their
  horizontal flips, their vertical flips, and the horizontal flips of the vertical
  flips. The accepted counter grows by exactly 4, the counter of empty tiles is
  unchanged and the attempts grow by 1.\<close>

theorem augmented_tile_records:
  "training_step svc ds R draws f out n s = Inr s'
   \<and> randint 0 (RasterXSize R - int (image_size ds)) (fst (draws (nat (nb_attempts s)))) = Inr x
   \<and> randint 0 (RasterYSize R - int (image_size ds)) (snd (draws (nat (nb_attempts s)))) = Inr y
   \<and> clipped_labels R x y \<noteq> [] \<longrightarrow>
   (\<exists>msk. load_mask (poly_cover svc) ds (clipped_labels R x y) (image_features R) x y = Inr msk
      \<and> result_dicts s' = result_dicts s @
           map (\<lambda>sfx. variant_record ds f out x y sfx
                         (build_labels svc msk [0..<get_nb_labels ds] ''tanzania''))
             [''nw'', ''ne'', ''sw'', ''se'']
      \<and> saved s' = saved s @
           [(variant_image_name ds f out x y ''nw'', tile_data R x y),
            (variant_label_name ds f out x y ''nw'', build_image_from_config svc msk (labels ds)),
            (variant_image_name ds f out x y ''ne'', map rev (tile_data R x y)),
            (variant_label_name ds f out x y ''ne'',
               map rev (build_image_from_config svc msk (labels ds))),
            (variant_image_name ds f out x y ''sw'', rev (tile_data R x y)),
            (variant_label_name ds f out x y ''sw'',
               rev (build_image_from_config svc msk (labels ds))),
            (variant_image_name ds f out x y ''se'', map rev (rev (tile_data R x y))),
            (variant_label_name ds f out x y ''se'',
               map rev (rev (build_image_from_config svc msk (labels ds))))])
   \<and> image_counter s' = image_counter s + 4
   \<and> empty_image_counter s' = empty_image_counter s
   \<and> nb_attempts s' = nb_attempts s + 1
   \<and> distinct (map (variant_image_name ds f out x y) [''nw'', ''ne'', ''sw'', ''se''])"
proof
  assume h: "training_step svc ds R draws f out n s = Inr s'
   \<and> randint 0 (RasterXSize R - int (image_size ds)) (fst (draws (nat (nb_attempts s)))) = Inr x
   \<and> randint 0 (RasterYSize R - int (image_size ds)) (snd (draws (nat (nb_attempts s)))) = Inr y
   \<and> clipped_labels R x y \<noteq> []"
  then have r: "training_step svc ds R draws f out n s = Inr s'" by simp
  from r obtain x' y' msk where
    x': "randint 0 (RasterXSize R - int (image_size ds)) (fst (draws (nat (nb_attempts s)))) = Inr x'"
    and y': "randint 0 (RasterYSize R - int (image_size ds)) (snd (draws (nat (nb_attempts s)))) = Inr y'"
    and m: "load_mask (poly_cover svc) ds (clipped_labels R x' y') (image_features R) x' y' = Inr msk"
    and s': "s' = (if clipped_labels R x' y' \<noteq> [] then
             accept_augmented ds (tile_data R x' y') (build_image_from_config svc msk (labels ds))
               (build_labels svc msk [0..<get_nb_labels ds] ''tanzania'') f out x' y' s
           else if real_of_int (empty_image_counter s) < 0.1 * real_of_int n then
             accept_empty ds (tile_data R x' y') (build_image_from_config svc msk (labels ds))
               (build_labels svc msk [0..<get_nb_labels ds] ''tanzania'') f out x' y' s
           else s)
          \<lparr>nb_attempts := nb_attempts
            (if clipped_labels R x' y' \<noteq> [] then
             accept_augmented ds (tile_data R x' y') (build_image_from_config svc msk (labels ds))
               (build_labels svc msk [0..<get_nb_labels ds] ''tanzania'') f out x' y' s
           else if real_of_int (empty_image_counter s) < 0.1 * real_of_int n then
             accept_empty ds (tile_data R x' y') (build_image_from_config svc msk (labels ds))
               (build_labels svc msk [0..<get_nb_labels ds] ''tanzania'') f out x' y' s
           else s) + 1\<rparr>"
    by (rule training_step_Inr)
  from h x' y' have xy: "x' = x" "y' = y" by simp_all
  from h have ne: "clipped_labels R x y \<noteq> []" by simp
  have s'': "s' = (accept_augmented ds (tile_data R x y)
                    (build_image_from_config svc msk (labels ds))
                    (build_labels svc msk [0..<get_nb_labels ds] ''tanzania'') f out x y s)
                 \<lparr>nb_attempts := nb_attempts s + 1\<rparr>"
    using s' ne unfolding xy by (simp add: accept_augmented_fields)
  have A: "\<exists>msk. load_mask (poly_cover svc) ds (clipped_labels R x y) (image_features R) x y = Inr msk
      \<and> result_dicts s' = result_dicts s @
           map (\<lambda>sfx. variant_record ds f out x y sfx
                         (build_labels svc msk [0..<get_nb_labels ds] ''tanzania''))
             [''nw'', ''ne'', ''sw'', ''se'']
      \<and> saved s' = saved s @
           [(variant_image_name ds f out x y ''nw'', tile_data R x y),
            (variant_label_name ds f out x y ''nw'', build_image_from_config svc msk (labels ds)),
            (variant_image_name ds f out x y ''ne'', map rev (tile_data R x y)),
            (variant_label_name ds f out x y ''ne'',
               map rev (build_image_from_config svc msk (labels ds))),
            (variant_image_name ds f out x y ''sw'', rev (tile_data R x y)),
            (variant_label_name ds f out x y ''sw'',
               rev (build_image_from_config svc msk (labels ds))),
            (variant_image_name ds f out x y ''se'', map rev (rev (tile_data R x y))),
            (variant_label_name ds f out x y ''se'',
               map rev (rev (build_image_from_config svc msk (labels ds))))]"
    using m unfolding xy s'' by (intro exI[of _ msk]) (simp add: accept_augmented_fields)
  have B: "image_counter s' = image_counter s + 4"
    "empty_image_counter s' = empty_image_counter s"
    "nb_attempts s' = nb_attempts s + 1"
    unfolding s'' by (simp_all add: accept_augmented_fields)
  from A B variant_image_names_distinct[of ds f out x y]
  show "(\<exists>msk. load_mask (poly_cover svc) ds (clipped_labels R x y) (image_features R) x y = Inr msk
      \<and> result_dicts s' = result_dicts s @
           map (\<lambda>sfx. variant_record ds f out x y sfx
                         (build_labels svc msk [0..<get_nb_labels ds] ''tanzania''))
             [''nw'', ''ne'', ''sw'', ''se'']
      \<and> saved s' = saved s @
           [(variant_image_name ds f out x y ''nw'', tile_data R x y),
            (variant_label_name ds f out x y ''nw'', build_image_from_config svc msk (labels ds)),
            (variant_image_name ds f out x y ''ne'', map rev (tile_data R x y)),
            (variant_label_name ds f out x y ''ne'',
               map rev (build_image_from_config svc msk (labels ds))),
            (variant_image_name ds f out x y ''sw'', rev (tile_data R x y)),
            (variant_label_name ds f out x y ''sw'',
               rev (build_image_from_config svc msk (labels ds))),
            (variant_image_name ds f out x y ''se'', map rev (rev (tile_data R x y))),
            (variant_label_name ds f out x y ''se'',
               map rev (rev (build_image_from_config svc msk (labels ds))))])
   \<and> image_counter s' = image_counter s + 4
   \<and> empty_image_counter s' = empty_image_counter s
   \<and> nb_attempts s' = nb_attempts s + 1
   \<and> distinct (map (variant_image_name ds f out x y) [''nw'', ''ne'', ''sw'', ''se''])"
    by blast
qed


text \<open>The first execution of the body on the raster with a building in every tile: the
  tile at the origin \<open>(0, 0)\<close> is written with its three reflections, and its labelled
  image, the mask of the example triangle, likewise.\<close>

theorem augmented_tile_records_witness:
  "map_sum id (\<lambda>s. (image_counter s, nb_attempts s,
                     map (\<lambda>r. map_of r ''image_filename'') (result_dicts s),
                     map snd (saved s)))
     (training_step example_services (TanzaniaDataset 2) example_built_raster example_draws
        ''data/images/t.tif'' ''out'' 10 initial_sampler)
   = Inr (4, 1,
          [Some (Str ''out/images/t_2_2_0_0_nw.png''), Some (Str ''out/images/t_2_2_0_0_ne.png''),
           Some (Str ''out/images/t_2_2_0_0_sw.png''), Some (Str ''out/images/t_2_2_0_0_se.png'')],
          [[[[1], [2]], [[3], [4]]], [[[1], [1]], [[0], [1]]],
           [[[2], [1]], [[4], [3]]], [[[1], [1]], [[1], [0]]],
           [[[3], [4]], [[1], [2]]], [[[0], [1]], [[1], [1]]],
           [[[4], [3]], [[2], [1]]], [[[1], [0]], [[1], [1]]]])"
proof -
  have e: "map_sum id (\<lambda>s. (image_counter s, nb_attempts s,
                     map (\<lambda>r. map_of r ''image_filename'') (result_dicts s),
                     map snd (saved s)))
     (training_step example_services (TanzaniaDataset 2) example_built_raster example_draws
        ''data/images/t.tif'' ''out'' 10 initial_sampler)
   = Inr (4, 1,
          [Some (Str ''out/images/t_2_2_0_0_nw.png''), Some (Str ''out/images/t_2_2_0_0_ne.png''),
           Some (Str ''out/images/t_2_2_0_0_sw.png''), Some (Str ''out/images/t_2_2_0_0_se.png'')],
          [[[[1], [2]], [[3], [4]]], [[[1], [1]], [[0], [1]]],
           [[[2], [1]], [[4], [3]]], [[[1], [1]], [[1], [0]]],
           [[[3], [4]], [[1], [2]]], [[[0], [1]], [[1], [1]]],
           [[[4], [3]], [[2], [1]]], [[[1], [0]], [[1], [1]]]])"
    by code_simp
  then obtain s' where r: "training_step example_services (TanzaniaDataset 2)
        example_built_raster example_draws ''data/images/t.tif'' ''out'' 10 initial_sampler = Inr s'"
    by (cases "training_step example_services (TanzaniaDataset 2) example_built_raster
                 example_draws ''data/images/t.tif'' ''out'' 10 initial_sampler") auto
  have x: "randint 0 (RasterXSize example_built_raster - int (image_size (TanzaniaDataset 2)))
             (fst (example_draws (nat (nb_attempts (initial_sampler :: nat list sampler))))) = Inr 0"
    by code_simp
  have y: "randint 0 (RasterYSize example_built_raster - int (image_size (TanzaniaDataset 2)))
             (snd (example_draws (nat (nb_attempts (initial_sampler :: nat list sampler))))) = Inr 0"
    by code_simp
  have c: "clipped_labels example_built_raster 0 0 \<noteq> []"
    by (simp add: example_built_raster_def)
  from augmented_tile_records
         [where svc = example_services and ds = "TanzaniaDataset 2"
            and R = example_built_raster and draws = example_draws
            and f = "''data/images/t.tif''" and out = "''out''" and n = 10
            and s = initial_sampler and s' = s' and x = 0 and y = 0] r x y c
  have "image_counter s' = image_counter (initial_sampler :: nat list sampler) + 4" by blast
  with e show ?thesis by simp
qed

end
